theory Spec2Isabelle
  imports Main
begin

section \<open>Values and rows\<close>

text \<open>
  JSON values as Prisma hands them over (\<^verbatim>\<open>JsonValue\<close>) and as JavaScript holds
  them. Numbers are integers: the authorization data compares ids; a fractional number
  can only pass through unchanged and is left out. An object is the list of its
  members in order.
\<close>

datatype json =
    JNull
  | JBool bool
  | JNum int
  | JStr string
  | JArr "json list"
  | JObj "(string \<times> json) list"

text \<open>The \<^verbatim>\<open>Action\<close> enum generated by Prisma (casl-ability.factory.ts:133-150).\<close>

datatype Action = Manage | Create | Read | Update | Delete

text \<open>
  The rows the factory reads (casl-ability.factory.ts:256-311). A field whose source name
  is used by two rows carries the row as a prefix: \<open>rp_permission\<close> is
  \<^verbatim>\<open>RolePermission.permission\<close>, \<open>ur_expiresAt\<close> is \<^verbatim>\<open>UserRole.expiresAt\<close>,
  \<open>role_isActive\<close> is \<^verbatim>\<open>Role.isActive\<close>, \<open>user_id\<close> is \<^verbatim>\<open>User.id\<close>.
  Timestamps are milliseconds; \<open>None\<close> is \<^verbatim>\<open>null\<close>.
\<close>

record Permission =
  action :: Action
  subject :: string
  conditions :: json

record RolePermission =
  rp_permission :: Permission

record Role =
  role_isActive :: bool
  permissions :: "RolePermission list"

record UserRole =
  role :: Role
  ur_expiresAt :: "int option"

record UserPermission =
  permission :: Permission
  inverted :: bool
  reason :: "string option"
  expiresAt :: "int option"

text \<open>
  The user row with its relations loaded. \<open>others\<close> holds the remaining columns
  (\<^verbatim>\<open>name\<close>, \<^verbatim>\<open>password\<close>, ...) that \<^verbatim>\<open>Object.assign(this, partial)\<close> copies
  onto the wrapper: they are properties a template can name.
\<close>

record User =
  user_id :: int
  email :: string
  isActive :: bool
  deletedAt :: "int option"
  roles :: "UserRole list"
  directPermissions :: "UserPermission list"
  others :: "(string \<times> json) list"

section \<open>Template rendering (conditions-parser.util.ts)\<close>

text \<open>
  What a call can raise. \<open>MustacheError\<close> is the \<^verbatim>\<open>Error\<close> that
  \<^verbatim>\<open>Mustache.render\<close> throws; \<open>EmptyFields\<close> is the \<^verbatim>\<open>Error\<close> with which the
  ability refuses a rule whose \<^verbatim>\<open>fields\<close> is an empty array. \<open>Unmodelled\<close> is not
  an outcome of the program: it marks a template that uses a part of Mustache the
  fragment below does not describe, and nothing is concluded from it.
\<close>

datatype exn = MustacheError string | EmptyFields | Unmodelled

text \<open>
  \<^verbatim>\<open>Mustache.render(template, view)\<close> belongs to the mustache package, not to this
  repository. \<^verbatim>\<open>parseConditions\<close> and \<^verbatim>\<open>createAbility\<close> take it as the parameter
  \<open>render\<close>, so what is proved of them holds for whatever the package computes.
\<close>

type_synonym render = "string \<Rightarrow> User \<Rightarrow> exn + string"

text \<open>
  For closed examples, \<open>Mustache_render\<close> describes the package on the fragment the
  stored templates use: literal text and escaped variable tags \<^verbatim>\<open>{{name}}\<close> whose
  name is a scalar property of the user. The tag runs to the first \<^verbatim>\<open>}}\<close>; with none,
  mustache.js throws \<^verbatim>\<open>Unclosed tag\<close>. A name that is no property of the view renders
  as the empty string. Sections, partials, comments, unescaped tags, delimiter changes,
  dotted names, and names that resolve to an array, a date or a member of
  \<^verbatim>\<open>Object.prototype\<close> are \<open>Unmodelled\<close>.
\<close>

definition isWhitespace :: "char \<Rightarrow> bool" where
  "isWhitespace c = (c = CHR '' '' \<or> c = CHR 0x09 \<or> c = CHR 0x0A \<or> c = CHR 0x0B
     \<or> c = CHR 0x0C \<or> c = CHR 0x0D)"

definition trim :: "string \<Rightarrow> string" where
  "trim s = rev (dropWhile isWhitespace (rev (dropWhile isWhitespace s)))"

definition digitChar :: "nat \<Rightarrow> char" where
  "digitChar d = ''0123456789'' ! d"

fun natToString :: "nat \<Rightarrow> string" where
  "natToString n =
     (if n < 10 then [digitChar n] else natToString (n div 10) @ [digitChar (n mod 10)])"

declare natToString.simps [simp del]

definition numberToString :: "int \<Rightarrow> string" where
  "numberToString i = (if i < 0 then CHR ''-'' # natToString (nat (- i)) else natToString (nat i))"

definition escapeChar :: "char \<Rightarrow> string" where
  "escapeChar c =
     (if c = CHR ''&'' then ''&amp;''
      else if c = CHR ''<'' then ''&lt;''
      else if c = CHR ''>'' then ''&gt;''
      else if c = CHR 0x22 then ''&quot;''
      else if c = CHR 0x27 then ''&#39;''
      else if c = CHR ''/'' then ''&#x2F;''
      else if c = CHR 0x60 then ''&#x60;''
      else if c = CHR ''='' then ''&#x3D;''
      else [c])"

definition escapeHtml :: "string \<Rightarrow> string" where
  "escapeHtml s = concat (map escapeChar s)"

datatype lookup_result = Found json | NotFound | OutsideFragment

definition objectPrototype :: "string list" where
  "objectPrototype =
     [''constructor'', ''hasOwnProperty'', ''isPrototypeOf'', ''propertyIsEnumerable'',
      ''toLocaleString'', ''toString'', ''valueOf'', ''__proto__'', ''__defineGetter__'',
      ''__defineSetter__'', ''__lookupGetter__'', ''__lookupSetter__'']"

definition lookup :: "User \<Rightarrow> string \<Rightarrow> lookup_result" where
  "lookup user name =
     (if name = ''id'' then Found (JNum (user_id user))
      else if name = ''email'' then Found (JStr (email user))
      else if name = ''isActive'' then Found (JBool (isActive user))
      else if name = ''deletedAt'' then
        (case deletedAt user of None \<Rightarrow> Found JNull | Some t \<Rightarrow> OutsideFragment)
      else if name = ''roles'' \<or> name = ''directPermissions'' then OutsideFragment
      else if CHR ''.'' \<in> set name \<or> name \<in> set objectPrototype then OutsideFragment
      else (case map_of (others user) name of Some v \<Rightarrow> Found v | None \<Rightarrow> NotFound))"

definition escapedValue :: "User \<Rightarrow> string \<Rightarrow> exn + string" where
  "escapedValue user name =
     (case lookup user name of
        NotFound \<Rightarrow> Inr []
      | OutsideFragment \<Rightarrow> Inl Unmodelled
      | Found JNull \<Rightarrow> Inr []
      | Found (JBool b) \<Rightarrow> Inr (if b then ''true'' else ''false'')
      | Found (JNum i) \<Rightarrow> Inr (numberToString i)
      | Found (JStr s) \<Rightarrow> Inr (escapeHtml s)
      | Found (JArr xs) \<Rightarrow> Inl Unmodelled
      | Found (JObj kvs) \<Rightarrow> Inl Unmodelled)"

definition renderTag :: "User \<Rightarrow> string \<Rightarrow> exn + string" where
  "renderTag user content =
     (let name = trim content in
      if name \<noteq> [] \<and> hd name \<in> set ''#^/>{&=!'' then Inl Unmodelled
      else escapedValue user name)"

datatype scanner = InText | InTag string

fun renderFrom :: "User \<Rightarrow> scanner \<Rightarrow> string \<Rightarrow> exn + string" where
  "renderFrom user InText [] = Inr []"
| "renderFrom user InText (c # cs) =
     (case cs of
        [] \<Rightarrow> Inr [c]
      | d # ds \<Rightarrow>
          if c = CHR ''{'' \<and> d = CHR ''{'' then renderFrom user (InTag []) ds
          else (case renderFrom user InText cs of Inl e \<Rightarrow> Inl e | Inr out \<Rightarrow> Inr (c # out)))"
| "renderFrom user (InTag acc) [] = Inl (MustacheError ''Unclosed tag'')"
| "renderFrom user (InTag acc) (c # cs) =
     (case cs of
        [] \<Rightarrow> Inl (MustacheError ''Unclosed tag'')
      | d # ds \<Rightarrow>
          if c = CHR ''}'' \<and> d = CHR ''}'' then
            (case renderTag user (rev acc) of
               Inl e \<Rightarrow> Inl e
             | Inr v \<Rightarrow> (case renderFrom user InText ds of Inl e \<Rightarrow> Inl e | Inr out \<Rightarrow> Inr (v @ out)))
          else renderFrom user (InTag (c # acc)) cs)"

definition Mustache_render :: render where
  "Mustache_render template view = renderFrom view InText template"

text \<open>
  \<^verbatim>\<open>_.cloneDeepWith(value, customizer)\<close> of lodash: the customizer is asked at every value;
  where it answers \<^verbatim>\<open>undefined\<close> the value is cloned the usual way, members in order.
  The customizer of conditions-parser.util.ts:43-63 answers for strings only, so it is
  the argument \<open>f\<close> applied at the string leaves; a throw inside it ends the clone.
\<close>

fun cloneDeepWith :: "(string \<Rightarrow> exn + json) \<Rightarrow> json \<Rightarrow> exn + json"
  and cloneArray :: "(string \<Rightarrow> exn + json) \<Rightarrow> json list \<Rightarrow> exn + json list"
  and cloneObject :: "(string \<Rightarrow> exn + json) \<Rightarrow> (string \<times> json) list \<Rightarrow> exn + (string \<times> json) list"
where
  "cloneDeepWith f (JStr s) = f s"
| "cloneDeepWith f (JArr xs) =
     (case cloneArray f xs of Inl e \<Rightarrow> Inl e | Inr ys \<Rightarrow> Inr (JArr ys))"
| "cloneDeepWith f (JObj kvs) =
     (case cloneObject f kvs of Inl e \<Rightarrow> Inl e | Inr kws \<Rightarrow> Inr (JObj kws))"
| "cloneDeepWith f JNull = Inr JNull"
| "cloneDeepWith f (JBool b) = Inr (JBool b)"
| "cloneDeepWith f (JNum n) = Inr (JNum n)"
| "cloneArray f [] = Inr []"
| "cloneArray f (x # xs) =
     (case cloneDeepWith f x of
        Inl e \<Rightarrow> Inl e
      | Inr y \<Rightarrow> (case cloneArray f xs of Inl e \<Rightarrow> Inl e | Inr ys \<Rightarrow> Inr (y # ys)))"
| "cloneObject f [] = Inr []"
| "cloneObject f ((k, v) # kvs) =
     (case cloneDeepWith f v of
        Inl e \<Rightarrow> Inl e
      | Inr w \<Rightarrow> (case cloneObject f kvs of Inl e \<Rightarrow> Inl e | Inr kws \<Rightarrow> Inr ((k, w) # kws)))"

text \<open>
  \<^verbatim>\<open>/^\d+$/.test(rendered)\<close>: one or more characters, each of \<^verbatim>\<open>0\<close>..\<^verbatim>\<open>9\<close>.
  \<^verbatim>\<open>Number(rendered)\<close> of such a string is its decimal value (JavaScript keeps it
  exactly below \<open>2 ^ 53\<close> and rounds it to a double beyond; the model keeps the integer).
\<close>

definition isDigit :: "char \<Rightarrow> bool" where
  "isDigit c = (c \<in> set ''0123456789'')"

definition allDigits :: "string \<Rightarrow> bool" where
  "allDigits s = (s \<noteq> [] \<and> list_all isDigit s)"

definition digitValue :: "char \<Rightarrow> nat" where
  "digitValue c = of_char c - 48"

definition Number :: "string \<Rightarrow> int" where
  "Number s = int (foldl (\<lambda>n c. 10 * n + digitValue c) 0 s)"

definition customizer :: "render \<Rightarrow> User \<Rightarrow> string \<Rightarrow> exn + json" where
  "customizer render user v =
     (case render v user of
        Inl e \<Rightarrow> Inl e
      | Inr rendered \<Rightarrow> Inr (if allDigits rendered then JNum (Number rendered) else JStr rendered))"

text \<open>
  \<^verbatim>\<open>parseConditions(conditions, user)\<close>, conditions-parser.util.ts:23-64. \<open>None\<close> is
  \<^verbatim>\<open>undefined\<close>. The guard sends \<^verbatim>\<open>null\<close> and every value whose \<^verbatim>\<open>typeof\<close> is not
  \<^verbatim>\<open>'object'\<close> (a string, a number, a boolean) to \<^verbatim>\<open>undefined\<close>; arrays and objects
  are cloned.
\<close>

definition isObject :: "json \<Rightarrow> bool" where
  "isObject c = (case c of JArr xs \<Rightarrow> True | JObj kvs \<Rightarrow> True | _ \<Rightarrow> False)"

definition parseConditions :: "render \<Rightarrow> json \<Rightarrow> User \<Rightarrow> exn + json option" where
  "parseConditions render c user =
     (if c = JNull \<or> \<not> isObject c then Inr None
      else (case cloneDeepWith (customizer render user) c of
              Inl e \<Rightarrow> Inl e
            | Inr r \<Rightarrow> Inr (Some r)))"

section \<open>Compiling the rules (casl-ability.factory.ts)\<close>

text \<open>
  A raw rule of \<^verbatim>\<open>AbilityBuilder\<close> (package @casl/ability, a dependency, described
  as the package implements it). \<^verbatim>\<open>can(action, subject, conditionsOrFields)\<close> appends
  one rule to the builder's rule array. Its \<^verbatim>\<open>_addRule\<close> stores
  \<^item> the action, always;
  \<^item> the subject only when it is truthy: with the empty string as subject the rule gets
    no subject, no conditions and no fields;
  \<^item> the third argument as \<^verbatim>\<open>fields\<close> when it is an array or a string, and as
    \<^verbatim>\<open>conditions\<close> when it is anything else but \<^verbatim>\<open>undefined\<close>.

  \<^verbatim>\<open>cannot(...)\<close> does the same with \<^verbatim>\<open>inverted: true\<close>, and \<^verbatim>\<open>.because(reason)\<close>
  sets the \<^verbatim>\<open>reason\<close> of the rule just appended. So a stored condition that is a JSON
  array, which \<open>parseConditions\<close> clones to an array, becomes the rule's list of fields
  and the rule has no conditions.

  \<open>None\<close> is \<^verbatim>\<open>undefined\<close>. A rule without subject is a rule whose \<open>rule_subject\<close>
  is the empty string: the builder never stores an empty subject, and the ability reads
  \<^verbatim>\<open>rule.subject || 'all'\<close>. \<open>rule_fields\<close> is the array of fields (for a string, the
  array that holds it).
\<close>

record Rule =
  rule_action :: Action
  rule_subject :: string
  rule_conditions :: "json option"
  rule_fields :: "json list option"
  rule_inverted :: bool
  rule_reason :: "string option"

definition addRule :: "Action \<Rightarrow> string \<Rightarrow> json option \<Rightarrow> bool \<Rightarrow> Rule" where
  "addRule a s c inverted_rule =
     \<lparr>rule_action = a, rule_subject = s,
      rule_conditions =
        (if s = [] then None
         else (case c of
                 None \<Rightarrow> None
               | Some (JArr xs) \<Rightarrow> None
               | Some (JStr x) \<Rightarrow> None
               | Some v \<Rightarrow> Some v)),
      rule_fields =
        (if s = [] then None
         else (case c of
                 None \<Rightarrow> None
               | Some (JArr xs) \<Rightarrow> Some xs
               | Some (JStr x) \<Rightarrow> Some [JStr x]
               | Some v \<Rightarrow> None)),
      rule_inverted = inverted_rule, rule_reason = None\<rparr>"

definition builder_can :: "Action \<Rightarrow> string \<Rightarrow> json option \<Rightarrow> Rule list \<Rightarrow> Rule list" where
  "builder_can a s c rules = rules @ [addRule a s c False]"

definition builder_cannot_because ::
  "Action \<Rightarrow> string \<Rightarrow> json option \<Rightarrow> string \<Rightarrow> Rule list \<Rightarrow> Rule list" where
  "builder_cannot_because a s c why rules =
     rules @ [(addRule a s c True)\<lparr>rule_reason := Some why\<rparr>]"

text \<open>
  \<^verbatim>\<open>build(options)\<close> hands the rule array to \<^verbatim>\<open>createMongoAbility\<close>. The ability
  indexes the rules at once and, constructing each \<^verbatim>\<open>Rule\<close>, throws on a raw rule
  whose \<^verbatim>\<open>fields\<close> is an empty array. Otherwise the ability is its rule array, in the
  order of the calls.
\<close>

definition build :: "Rule list \<Rightarrow> exn + Rule list" where
  "build rules =
     (if list_ex (\<lambda>r. rule_fields r = Some []) rules then Inl EmptyFields else Inr rules)"

text \<open>
  \<^verbatim>\<open>Array.prototype.forEach\<close> with a callback that updates the builder's rule array and
  may throw: the first throw ends the loop and the call.
\<close>

fun forEach :: "('a \<Rightarrow> Rule list \<Rightarrow> exn + Rule list) \<Rightarrow> 'a list \<Rightarrow> Rule list \<Rightarrow> exn + Rule list" where
  "forEach f [] rules = Inr rules"
| "forEach f (x # xs) rules =
     (case f x rules of Inl e \<Rightarrow> Inl e | Inr rules' \<Rightarrow> forEach f xs rules')"

text \<open>The three callbacks of \<^verbatim>\<open>createAbility\<close> (lines 480-486, 498-504, 515-521).\<close>

definition canPermission :: "render \<Rightarrow> User \<Rightarrow> Permission \<Rightarrow> Rule list \<Rightarrow> exn + Rule list" where
  "canPermission render user p rules =
     (case parseConditions render (conditions p) user of
        Inl e \<Rightarrow> Inl e
      | Inr c \<Rightarrow> Inr (builder_can (action p) (subject p) c rules))"

definition cannotPermission :: "render \<Rightarrow> User \<Rightarrow> UserPermission \<Rightarrow> Rule list \<Rightarrow> exn + Rule list" where
  "cannotPermission render user dp rules =
     (case parseConditions render (conditions (permission dp)) user of
        Inl e \<Rightarrow> Inl e
      | Inr c \<Rightarrow>
          Inr (builder_cannot_because (action (permission dp)) (subject (permission dp)) c
                 (case reason dp of None \<Rightarrow> [] | Some why \<Rightarrow> why) rules))"

text \<open>
  \<^verbatim>\<open>createAbility(user)\<close>, casl-ability.factory.ts:447-603: the three loops over
  the user's rows, then \<^verbatim>\<open>build\<close>. \<open>None\<close> is the null user of the guard at line
  466, for which nothing is added before \<^verbatim>\<open>build\<close>.
\<close>

definition createAbility :: "render \<Rightarrow> User option \<Rightarrow> exn + Rule list" where
  "createAbility render user =
     (case user of
        None \<Rightarrow> build []
      | Some u \<Rightarrow>
          (case forEach (\<lambda>ur. forEach (\<lambda>rp. canPermission render u (rp_permission rp))
                                     (permissions (role ur)))
                  (roles u) [] of
             Inl e \<Rightarrow> Inl e
           | Inr rules1 \<Rightarrow>
               (case forEach (\<lambda>dp. canPermission render u (permission dp))
                       (filter (\<lambda>dp. \<not> inverted dp) (directPermissions u)) rules1 of
                  Inl e \<Rightarrow> Inl e
                | Inr rules2 \<Rightarrow>
                    (case forEach (cannotPermission render u)
                            (filter (\<lambda>dp. inverted dp) (directPermissions u)) rules2 of
                       Inl e \<Rightarrow> Inl e
                     | Inr rules3 \<Rightarrow> build rules3))))"

section \<open>Answering a query\<close>

text \<open>
  The subject of a query: a bare subject-type string, or an instance, given by the name
  of its class (\<^verbatim>\<open>constructor.name\<close>) and its properties (\<open>None\<close> is a property the
  instance does not have).
\<close>

type_synonym resource = "string \<Rightarrow> json option"

datatype Subject = SubjectType string | Instance string resource

text \<open>
  \<^verbatim>\<open>detectSubjectType\<close>: the ability keeps a string as its own type and asks the option
  given at casl-ability.factory.ts:599-602 for an object, which answers
  \<^verbatim>\<open>constructor.name\<close>.
\<close>

fun detectSubjectType :: "Subject \<Rightarrow> string" where
  "detectSubjectType (SubjectType t) = t"
| "detectSubjectType (Instance cls obj) = cls"

text \<open>
  The evaluation itself is \<^verbatim>\<open>MongoAbility\<close> of the package @casl/ability, which the
  factory instantiates through \<^verbatim>\<open>createMongoAbility\<close>; its code is a dependency and is
  described here as the package documents and implements it (the factory's own comments
  at lines 418-436 and 509-512 state the same precedence):
  \<^item> \<^verbatim>\<open>rulesFor(action, subjectType)\<close>: the rules whose action is the queried one or
    \<^verbatim>\<open>manage\<close> and whose subject is the queried type or \<^verbatim>\<open>all\<close> (a rule without
    subject is indexed under \<^verbatim>\<open>all\<close>), the one defined last first; of these, the rules
    for which \<^verbatim>\<open>matchesField(undefined)\<close> holds, no field being queried: a rule
    without fields, or a rule with fields that is not inverted;
  \<^item> \<^verbatim>\<open>Rule.matchesConditions(subject)\<close>: a rule without conditions matches; with
    conditions, on a bare subject type the answer is \<^verbatim>\<open>!this.inverted\<close>, on an instance
    it is the conditions matcher's;
  \<^item> \<^verbatim>\<open>relevantRuleFor\<close>: the first of \<^verbatim>\<open>rulesFor\<close> that matches the conditions;
  \<^item> \<^verbatim>\<open>can\<close>: there is a relevant rule and it is not inverted; \<^verbatim>\<open>cannot\<close> negates.
  The conditions matcher (\<^verbatim>\<open>mongoQueryMatcher\<close> of @ucast/mongo2js) is the parameter
  \<open>matcher\<close>; it is taken to answer without throwing.
\<close>

type_synonym conditionsMatcher = "json \<Rightarrow> resource \<Rightarrow> bool"

definition matchesField :: "Rule \<Rightarrow> bool" where
  "matchesField r = (case rule_fields r of None \<Rightarrow> True | Some fs \<Rightarrow> \<not> rule_inverted r)"

definition appliesTo :: "Rule \<Rightarrow> Action \<Rightarrow> string \<Rightarrow> bool" where
  "appliesTo r a t =
     ((rule_action r = a \<or> rule_action r = Manage)
      \<and> (rule_subject r = t \<or> rule_subject r = ''all'' \<or> rule_subject r = [])
      \<and> matchesField r)"

definition rulesFor :: "Rule list \<Rightarrow> Action \<Rightarrow> string \<Rightarrow> Rule list" where
  "rulesFor rules a t = rev (filter (\<lambda>r. appliesTo r a t) rules)"

definition matchesConditions :: "conditionsMatcher \<Rightarrow> Rule \<Rightarrow> Subject \<Rightarrow> bool" where
  "matchesConditions matcher r s =
     (case rule_conditions r of
        None \<Rightarrow> True
      | Some c \<Rightarrow>
          (case s of
             SubjectType t \<Rightarrow> \<not> rule_inverted r
           | Instance cls obj \<Rightarrow> matcher c obj))"

definition relevantRuleFor :: "conditionsMatcher \<Rightarrow> Rule list \<Rightarrow> Action \<Rightarrow> Subject \<Rightarrow> Rule option" where
  "relevantRuleFor matcher rules a s =
     find (\<lambda>r. matchesConditions matcher r s) (rulesFor rules a (detectSubjectType s))"

definition can :: "conditionsMatcher \<Rightarrow> Rule list \<Rightarrow> Action \<Rightarrow> Subject \<Rightarrow> bool" where
  "can matcher rules a s =
     (case relevantRuleFor matcher rules a s of None \<Rightarrow> False | Some r \<Rightarrow> \<not> rule_inverted r)"

definition cannot :: "conditionsMatcher \<Rightarrow> Rule list \<Rightarrow> Action \<Rightarrow> Subject \<Rightarrow> bool" where
  "cannot matcher rules a s = (\<not> can matcher rules a s)"

text \<open>
  The rules the ability takes as matching a query: those \<^verbatim>\<open>relevantRuleFor\<close> looks
  through, that is the rules of \<^verbatim>\<open>rulesFor\<close> for which \<^verbatim>\<open>matchesConditions\<close> holds.
\<close>

definition ruleMatches :: "conditionsMatcher \<Rightarrow> Rule \<Rightarrow> Action \<Rightarrow> Subject \<Rightarrow> bool" where
  "ruleMatches matcher r a s =
     (appliesTo r a (detectSubjectType s) \<and> matchesConditions matcher r s)"

section \<open>Loading the user (permission.service.ts)\<close>

text \<open>
  \<^verbatim>\<open>getUserWithPermissions(userId)\<close>, permission.service.ts:108-137 (the same query
  stands in the authorization service). The table is the list of user rows, each with
  all its role assignments and direct permissions; \<^verbatim>\<open>findFirst\<close> answers the first row
  that satisfies the \<^verbatim>\<open>where\<close> clause, and each \<^verbatim>\<open>include\<close> keeps the related rows
  that satisfy its own. \<open>now\<close> is the reading of \<^verbatim>\<open>new Date()\<close>; the two readings of
  one call are taken as the same instant.
\<close>

definition notExpired :: "int \<Rightarrow> int option \<Rightarrow> bool" where
  "notExpired now e = (case e of None \<Rightarrow> True | Some t \<Rightarrow> now < t)"

definition getUserWithPermissions :: "User list \<Rightarrow> int \<Rightarrow> int \<Rightarrow> User option" where
  "getUserWithPermissions users now userId =
     (case find (\<lambda>u. user_id u = userId \<and> isActive u \<and> deletedAt u = None) users of
        None \<Rightarrow> None
      | Some u \<Rightarrow>
          Some (u\<lparr>roles :=
                    filter (\<lambda>ur. role_isActive (role ur) \<and> notExpired now (ur_expiresAt ur)) (roles u),
                  directPermissions :=
                    filter (\<lambda>dp. notExpired now (expiresAt dp)) (directPermissions u)\<rparr>))"

section \<open>The specification's words\<close>

text \<open>
  The rule order the specification states (section 3, Invariant; section 4.2): the
  permissions of the roles in the order of the graph, then the direct grants, then the
  direct revokes, each compiled to one rule. The rule of a permission has its action and
  its subject; \<open>holds\<close> says what it has of the parsed conditions, as the builder keeps
  them: nothing when the subject is empty, the fields when they are an array (or a
  string), and the conditions otherwise.
\<close>

definition rolePermissions :: "User \<Rightarrow> Permission list" where
  "rolePermissions u = concat (map (\<lambda>ur. map rp_permission (permissions (role ur))) (roles u))"

definition grants :: "User \<Rightarrow> UserPermission list" where
  "grants u = filter (\<lambda>dp. \<not> inverted dp) (directPermissions u)"

definition revokes :: "User \<Rightarrow> UserPermission list" where
  "revokes u = filter (\<lambda>dp. inverted dp) (directPermissions u)"

definition holds :: "Rule \<Rightarrow> string \<Rightarrow> json option \<Rightarrow> bool" where
  "holds r s c =
     (if s = [] then rule_conditions r = None \<and> rule_fields r = None
      else (case c of
              None \<Rightarrow> rule_conditions r = None \<and> rule_fields r = None
            | Some (JArr xs) \<Rightarrow> rule_conditions r = None \<and> rule_fields r = Some xs
            | Some (JStr x) \<Rightarrow> rule_conditions r = None \<and> rule_fields r = Some [JStr x]
            | Some v \<Rightarrow> rule_conditions r = Some v \<and> rule_fields r = None))"

definition allowRuleOf :: "render \<Rightarrow> User \<Rightarrow> Permission \<Rightarrow> Rule \<Rightarrow> bool" where
  "allowRuleOf render u p r =
     ((case parseConditions render (conditions p) u of
         Inl e \<Rightarrow> False
       | Inr c \<Rightarrow> holds r (subject p) c)
      \<and> rule_action r = action p \<and> rule_subject r = subject p
      \<and> rule_inverted r = False \<and> rule_reason r = None)"

definition denyRuleOf :: "render \<Rightarrow> User \<Rightarrow> UserPermission \<Rightarrow> Rule \<Rightarrow> bool" where
  "denyRuleOf render u dp r =
     ((case parseConditions render (conditions (permission dp)) u of
         Inl e \<Rightarrow> False
       | Inr c \<Rightarrow> holds r (subject (permission dp)) c)
      \<and> rule_action r = action (permission dp) \<and> rule_subject r = subject (permission dp)
      \<and> rule_inverted r = True
      \<and> rule_reason r = Some (case reason dp of None \<Rightarrow> [] | Some why \<Rightarrow> why))"

text \<open>
  The evaluator of section 4.4 in the specification's words, to be compared with \<open>can\<close>.
  A rule is looked at when its action is the queried one or \<open>manage\<close> and its subject
  type is the queried type or \<open>all\<close>. Without a condition it matches; with one it
  matches only if the subject is a resource instance, not a bare type, whose attributes
  satisfy the condition. The rules are visited in stored order, a rule that matches
  overwrites what was recorded, nothing stops the scan, and with nothing recorded the
  decision is Deny.
\<close>

datatype Effect = Allow | Deny

definition effect :: "Rule \<Rightarrow> Effect" where
  "effect r = (if rule_inverted r then Deny else Allow)"





text \<open>
  Modelled from the spec: \<^verbatim>\<open>reasonFor(ability, action, subject)\<close> of section 4.4 and
  section 6 names no function under src/ (no file reads a rule's reason back). In the
  specification's words it returns the reason of the last matching Deny rule, if any.
  The Deny rules that match are those the ability takes as matching (a Deny rule with a
  subject and without fields matches in the ability exactly when it matches in the words
  of section 4.4: with a condition, only on an instance that satisfies it).
\<close>

definition reasonFor :: "conditionsMatcher \<Rightarrow> Rule list \<Rightarrow> Action \<Rightarrow> Subject \<Rightarrow> string option" where
  "reasonFor matcher rules a s =
     (case filter (\<lambda>r. rule_inverted r \<and> ruleMatches matcher r a s) rules of
        [] \<Rightarrow> None
      | d # ds \<Rightarrow> rule_reason (last (d # ds)))"

text \<open>
  Modelled from the spec: the matching of a resolved condition against a resource is
  done by \<^verbatim>\<open>mongoQueryMatcher\<close> of @ucast/mongo2js, which \<^verbatim>\<open>createMongoAbility\<close>
  installs; it is not under src/. Section 4.4 gives the two forms the specification
  covers: a pair field, value matches when \<^verbatim>\<open>resource[field] == value\<close>, a pair field,
  \<^verbatim>\<open>{"$ne": value}\<close> matches when \<^verbatim>\<open>resource[field] != value\<close>, and every field of
  the map must match. Other operators are not described.
\<close>

definition fieldMatches :: "json \<Rightarrow> json option \<Rightarrow> bool" where
  "fieldMatches c x =
     (case c of
        JObj [(k, v)] \<Rightarrow> if k = ''$ne'' then x \<noteq> Some v else x = Some c
      | _ \<Rightarrow> x = Some c)"

text \<open>
  Modelled from the spec: the whole condition, by the same matcher (not under src/). In
  the words of section 4.4, every field in the condition map must match.
\<close>

definition conditionMatches :: conditionsMatcher where
  "conditionMatches c obj =
     (case c of
        JObj kvs \<Rightarrow> list_all (\<lambda>(field, v). fieldMatches v (obj field)) kvs
      | _ \<Rightarrow> False)"

text \<open>The string leaves of a template, and a template with every string leaf replaced.\<close>

fun stringLeaves :: "json \<Rightarrow> string list"
  and stringLeavesArray :: "json list \<Rightarrow> string list"
  and stringLeavesObject :: "(string \<times> json) list \<Rightarrow> string list"
where
  "stringLeaves (JStr s) = [s]"
| "stringLeaves (JArr xs) = stringLeavesArray xs"
| "stringLeaves (JObj kvs) = stringLeavesObject kvs"
| "stringLeaves JNull = []"
| "stringLeaves (JBool b) = []"
| "stringLeaves (JNum n) = []"
| "stringLeavesArray [] = []"
| "stringLeavesArray (x # xs) = stringLeaves x @ stringLeavesArray xs"
| "stringLeavesObject [] = []"
| "stringLeavesObject ((k, v) # kvs) = stringLeaves v @ stringLeavesObject kvs"

fun mapLeaves :: "(string \<Rightarrow> json) \<Rightarrow> json \<Rightarrow> json"
  and mapLeavesArray :: "(string \<Rightarrow> json) \<Rightarrow> json list \<Rightarrow> json list"
  and mapLeavesObject :: "(string \<Rightarrow> json) \<Rightarrow> (string \<times> json) list \<Rightarrow> (string \<times> json) list"
where
  "mapLeaves g (JStr s) = g s"
| "mapLeaves g (JArr xs) = JArr (mapLeavesArray g xs)"
| "mapLeaves g (JObj kvs) = JObj (mapLeavesObject g kvs)"
| "mapLeaves g JNull = JNull"
| "mapLeaves g (JBool b) = JBool b"
| "mapLeaves g (JNum n) = JNum n"
| "mapLeavesArray g [] = []"
| "mapLeavesArray g (x # xs) = mapLeaves g x # mapLeavesArray g xs"
| "mapLeavesObject g [] = []"
| "mapLeavesObject g ((k, v) # kvs) = (k, mapLeaves g v) # mapLeavesObject g kvs"

definition coerce :: "string \<Rightarrow> json" where
  "coerce rendered = (if allDigits rendered then JNum (Number rendered) else JStr rendered)"

section \<open>Sample rows\<close>

text \<open>
  The rows of the scenarios in section 8 of the specification and of the seed data
  (prisma/data/rbac-sample-data.sql): an editor whose role grants \<^verbatim>\<open>create Post\<close> and,
  for posts of their own, \<^verbatim>\<open>update Post\<close>; a sanctioned user whose role grants
  \<^verbatim>\<open>delete Post\<close> and who holds a revoke of it; a user with one direct grant; a user
  with nothing; and an administrator whose role assignment expired on 2023-01-01.
\<close>

definition createPost :: Permission where
  "createPost = \<lparr>action = Create, subject = ''Post'', conditions = JNull\<rparr>"

definition readPost :: Permission where
  "readPost = \<lparr>action = Read, subject = ''Post'', conditions = JNull\<rparr>"

definition deletePost :: Permission where
  "deletePost = \<lparr>action = Delete, subject = ''Post'', conditions = JNull\<rparr>"

definition updateOwnPost :: Permission where
  "updateOwnPost =
     \<lparr>action = Update, subject = ''Post'', conditions = JObj [(''authorId'', JStr ''{{id}}'')]\<rparr>"

definition manageAll :: Permission where
  "manageAll = \<lparr>action = Manage, subject = ''all'', conditions = JNull\<rparr>"

definition editorRole :: Role where
  "editorRole =
     \<lparr>role_isActive = True,
      permissions = [\<lparr>rp_permission = createPost\<rparr>, \<lparr>rp_permission = updateOwnPost\<rparr>]\<rparr>"

definition moderatorRole :: Role where
  "moderatorRole = \<lparr>role_isActive = True, permissions = [\<lparr>rp_permission = deletePost\<rparr>]\<rparr>"

definition adminRole :: Role where
  "adminRole = \<lparr>role_isActive = True, permissions = [\<lparr>rp_permission = manageAll\<rparr>]\<rparr>"

definition editor :: User where
  "editor =
     \<lparr>user_id = 2, email = ''editor.simple@test.com'', isActive = True, deletedAt = None,
      roles = [\<lparr>role = editorRole, ur_expiresAt = None\<rparr>], directPermissions = [],
      others = [(''name'', JStr ''Editor'')]\<rparr>"

definition sanctioned :: User where
  "sanctioned =
     \<lparr>user_id = 9, email = ''sanctioned@test.com'', isActive = True, deletedAt = None,
      roles = [\<lparr>role = moderatorRole, ur_expiresAt = None\<rparr>],
      directPermissions =
        [\<lparr>permission = deletePost, inverted = True, reason = Some ''sanctioned'',
          expiresAt = None\<rparr>],
      others = []\<rparr>"

definition directOnly :: User where
  "directOnly =
     \<lparr>user_id = 5, email = ''direct.only@test.com'', isActive = True, deletedAt = None,
      roles = [],
      directPermissions =
        [\<lparr>permission = readPost, inverted = False, reason = None, expiresAt = None\<rparr>],
      others = []\<rparr>"


definition expiredAssignment :: UserRole where
  "expiredAssignment = \<lparr>role = adminRole, ur_expiresAt = Some 1672531200000\<rparr>"

definition expiredAdmin :: User where
  "expiredAdmin =
     \<lparr>user_id = 10, email = ''expired.role@test.com'', isActive = True, deletedAt = None,
      roles = [expiredAssignment], directPermissions = [], others = []\<rparr>"

definition seven :: User where
  "seven =
     \<lparr>user_id = 7, email = ''seven@test.com'', isActive = True, deletedAt = None,
      roles = [], directPermissions = [], others = []\<rparr>"

definition post :: "int \<Rightarrow> Subject" where
  "post author = Instance ''Post'' [''id'' \<mapsto> JNum 100, ''authorId'' \<mapsto> JNum author,
     ''isPublished'' \<mapsto> JBool True]"


definition unexplained :: User where
  "unexplained =
     \<lparr>user_id = 12, email = ''unexplained@test.com'', isActive = True, deletedAt = None,
      roles = [\<lparr>role = moderatorRole, ur_expiresAt = None\<rparr>],
      directPermissions =
        [\<lparr>permission = deletePost, inverted = True, reason = None, expiresAt = None\<rparr>],
      others = []\<rparr>"

text \<open>The rule lists these users compile to (proved below).\<close>

definition allowRule :: "Action \<Rightarrow> string \<Rightarrow> json option \<Rightarrow> Rule" where
  "allowRule a s c =
     \<lparr>rule_action = a, rule_subject = s, rule_conditions = c, rule_fields = None,
      rule_inverted = False, rule_reason = None\<rparr>"

definition denyRule :: "Action \<Rightarrow> string \<Rightarrow> json option \<Rightarrow> string \<Rightarrow> Rule" where
  "denyRule a s c why =
     \<lparr>rule_action = a, rule_subject = s, rule_conditions = c, rule_fields = None,
      rule_inverted = True, rule_reason = Some why\<rparr>"

definition editorRules :: "Rule list" where
  "editorRules =
     [allowRule Create ''Post'' None,
      allowRule Update ''Post'' (Some (JObj [(''authorId'', JNum 2)]))]"

definition sanctionedRules :: "Rule list" where
  "sanctionedRules =
     [allowRule Delete ''Post'' None, denyRule Delete ''Post'' None ''sanctioned'']"

definition unexplainedRules :: "Rule list" where
  "unexplainedRules = [allowRule Delete ''Post'' None, denyRule Delete ''Post'' None []]"


text \<open>
  The administrator of the seed data who is forbidden to delete posts of their own
  (the revoke stored with the condition \<^verbatim>\<open>{"authorId": "{{id}}"}\<close>).
\<close>

definition deleteOwnPost :: Permission where
  "deleteOwnPost =
     \<lparr>action = Delete, subject = ''Post'', conditions = JObj [(''authorId'', JStr ''{{id}}'')]\<rparr>"

definition restricted :: User where
  "restricted =
     \<lparr>user_id = 12, email = ''restricted@test.com'', isActive = True, deletedAt = None,
      roles = [\<lparr>role = adminRole, ur_expiresAt = None\<rparr>],
      directPermissions =
        [\<lparr>permission = deleteOwnPost, inverted = True, reason = Some ''own posts'',
          expiresAt = None\<rparr>],
      others = []\<rparr>"

definition restrictedRules :: "Rule list" where
  "restrictedRules =
     [allowRule Manage ''all'' None,
      denyRule Delete ''Post'' (Some (JObj [(''authorId'', JNum 12)])) ''own posts'']"


text \<open>
  Rows outside what the seed data stores: a grant whose condition is the JSON array
  \<^verbatim>\<open>["title"]\<close>, a revoke whose condition is an array, a grant whose subject is the
  empty string, and a grant whose condition is the empty array.
\<close>

definition readTitle :: Permission where
  "readTitle = \<lparr>action = Read, subject = ''Post'', conditions = JArr [JStr ''title'']\<rparr>"

definition deleteTitle :: Permission where
  "deleteTitle = \<lparr>action = Delete, subject = ''Post'', conditions = JArr [JStr ''title'']\<rparr>"

definition updateNothing :: Permission where
  "updateNothing =
     \<lparr>action = Update, subject = [], conditions = JObj [(''authorId'', JStr ''{{id}}'')]\<rparr>"

definition readNoField :: Permission where
  "readNoField = \<lparr>action = Read, subject = ''Post'', conditions = JArr []\<rparr>"

definition legacy :: User where
  "legacy =
     \<lparr>user_id = 13, email = ''legacy@test.com'', isActive = True, deletedAt = None,
      roles = [\<lparr>role = moderatorRole, ur_expiresAt = None\<rparr>],
      directPermissions =
        [\<lparr>permission = deleteTitle, inverted = True, reason = Some ''titles'', expiresAt = None\<rparr>,
         \<lparr>permission = readTitle, inverted = False, reason = None, expiresAt = None\<rparr>,
         \<lparr>permission = updateNothing, inverted = False, reason = None, expiresAt = None\<rparr>],
      others = []\<rparr>"

definition legacyRules :: "Rule list" where
  "legacyRules =
     [allowRule Delete ''Post'' None,
      (allowRule Read ''Post'' None)\<lparr>rule_fields := Some [JStr ''title'']\<rparr>,
      allowRule Update [] None,
      (denyRule Delete ''Post'' None ''titles'')\<lparr>rule_fields := Some [JStr ''title'']\<rparr>]"

definition noField :: User where
  "noField =
     \<lparr>user_id = 14, email = ''nofield@test.com'', isActive = True, deletedAt = None,
      roles = [],
      directPermissions =
        [\<lparr>permission = readNoField, inverted = False, reason = None, expiresAt = None\<rparr>],
      others = []\<rparr>"

section \<open>Lists and loops\<close>

lemma find_rev_filter:
  "find P (rev (filter Q xs)) =
     (case filter (\<lambda>x. Q x \<and> P x) xs of [] \<Rightarrow> None | y # ys \<Rightarrow> Some (last (y # ys)))"
proof (induction xs rule: rev_induct)
  case Nil
  then show ?case by simp
next
  case (snoc x xs)
  then show ?case by (auto split: list.splits)
qed

lemma last_filter_in:
  "filter P xs \<noteq> [] \<Longrightarrow> last (filter P xs) \<in> set xs \<and> P (last (filter P xs))"
  using last_in_set[of "filter P xs"] by auto

lemma list_all2_witness:
  "list_all2 P xs ys \<Longrightarrow> x \<in> set xs \<Longrightarrow> \<exists>y \<in> set ys. P x y"
  by (induction rule: list_all2_induct) auto

lemma list_all2_witness2:
  "list_all2 P xs ys \<Longrightarrow> y \<in> set ys \<Longrightarrow> \<exists>x \<in> set xs. P x y"
  by (induction rule: list_all2_induct) auto

text \<open>
  A loop whose callback appends a block of rules for each element appends, in all, the
  blocks in the order of the elements.
\<close>

lemma forEach_blocks:
  assumes step: "\<And>x rs rs'. x \<in> set xs \<Longrightarrow> f x rs = Inr rs' \<Longrightarrow>
      \<exists>new. rs' = rs @ new \<and> list_all2 P (g x) new"
  shows "forEach f xs rules = Inr out \<Longrightarrow>
      \<exists>new. out = rules @ new \<and> list_all2 P (concat (map g xs)) new"
  using step
proof (induction xs arbitrary: rules)
  case Nil
  then show ?case by simp
next
  case (Cons x xs)
  from Cons.prems(1) obtain rs' where fx: "f x rules = Inr rs'" and rest: "forEach f xs rs' = Inr out"
    by (auto split: sum.splits)
  from Cons.prems(2)[OF _ fx] obtain new1 where n1: "rs' = rules @ new1" "list_all2 P (g x) new1"
    by auto
  have "\<exists>new. out = rs' @ new \<and> list_all2 P (concat (map g xs)) new"
    by (rule Cons.IH[OF rest]) (use Cons.prems(2) in auto)
  then obtain new2 where n2: "out = rs' @ new2" "list_all2 P (concat (map g xs)) new2"
    by auto
  show ?case
    using n1 n2 by (auto intro!: exI[of _ "new1 @ new2"] list_all2_appendI)
qed

lemma forEach_singles:
  assumes step: "\<And>x rs rs'. x \<in> set xs \<Longrightarrow> f x rs = Inr rs' \<Longrightarrow> \<exists>r. rs' = rs @ [r] \<and> P x r"
  shows "forEach f xs rules = Inr out \<Longrightarrow> \<exists>new. out = rules @ new \<and> list_all2 P xs new"
proof -
  assume run: "forEach f xs rules = Inr out"
  have "\<exists>new. out = rules @ new \<and> list_all2 P (concat (map (\<lambda>x. [x]) xs)) new"
  proof (rule forEach_blocks[OF _ run])
    fix x rs rs'
    assume "x \<in> set xs" "f x rs = Inr rs'"
    from step[OF this] show "\<exists>new. rs' = rs @ new \<and> list_all2 P [x] new"
      by auto
  qed
  then show ?thesis by simp
qed

section \<open>The compiled rule list\<close>

lemma parseConditions_null: "parseConditions render JNull u = Inr None"
  by (simp add: parseConditions_def)

lemma addRule_fields:
  "rule_action (addRule a s c i) = a" "rule_subject (addRule a s c i) = s"
  "rule_inverted (addRule a s c i) = i" "rule_reason (addRule a s c i) = None"
  by (simp_all add: addRule_def)

lemma addRule_holds: "holds (addRule a s c i) s c"
  by (simp add: holds_def addRule_def split: option.splits json.splits)

lemma holds_reason: "holds (r\<lparr>rule_reason := why\<rparr>) s c = holds r s c"
  by (simp add: holds_def split: option.splits json.splits)

lemma canPermission_step:
  "canPermission render u p rs = Inr rs' \<Longrightarrow> \<exists>r. rs' = rs @ [r] \<and> allowRuleOf render u p r"
  by (auto simp: canPermission_def builder_can_def allowRuleOf_def addRule_fields addRule_holds
      split: sum.splits)

lemma cannotPermission_step:
  "cannotPermission render u dp rs = Inr rs' \<Longrightarrow> \<exists>r. rs' = rs @ [r] \<and> denyRuleOf render u dp r"
  by (auto simp: cannotPermission_def builder_cannot_because_def denyRuleOf_def addRule_fields
      addRule_holds holds_reason split: sum.splits)

lemma build_returns: "build rs = Inr rules \<Longrightarrow> rules = rs \<and> (\<forall>r \<in> set rs. rule_fields r \<noteq> Some [])"
  by (auto simp: build_def list_ex_iff split: if_splits)

lemma createAbility_order:
  assumes "createAbility render (Some u) = Inr rules"
  shows "\<exists>rs gs ds. rules = rs @ gs @ ds
      \<and> list_all2 (allowRuleOf render u) (rolePermissions u) rs
      \<and> list_all2 (allowRuleOf render u) (map permission (grants u)) gs
      \<and> list_all2 (denyRuleOf render u) (revokes u) ds"
proof -
  from assms obtain rules1 rules2 where
    r1: "forEach (\<lambda>ur. forEach (\<lambda>rp. canPermission render u (rp_permission rp))
           (permissions (role ur))) (roles u) [] = Inr rules1"
    and r2: "forEach (\<lambda>dp. canPermission render u (permission dp)) (grants u) rules1 = Inr rules2"
    and r3: "forEach (cannotPermission render u) (revokes u) rules2 = Inr rules"
    by (auto simp: createAbility_def grants_def revokes_def dest: build_returns split: sum.splits)
  have inner: "\<exists>new. rs' = rs @ new
      \<and> list_all2 (allowRuleOf render u) (map rp_permission (permissions (role ur))) new"
    if "forEach (\<lambda>rp. canPermission render u (rp_permission rp)) (permissions (role ur)) rs = Inr rs'"
    for ur rs rs'
  proof -
    have "\<exists>new. rs' = rs @ new
        \<and> list_all2 (\<lambda>rp. allowRuleOf render u (rp_permission rp)) (permissions (role ur)) new"
      by (rule forEach_singles[OF _ that]) (rule canPermission_step)
    then show ?thesis by (auto simp: list_all2_map1)
  qed
  have "\<exists>new. rules1 = [] @ new \<and> list_all2 (allowRuleOf render u)
      (concat (map (\<lambda>ur. map rp_permission (permissions (role ur))) (roles u))) new"
    by (rule forEach_blocks[OF _ r1]) (rule inner)
  then have a: "list_all2 (allowRuleOf render u) (rolePermissions u) rules1"
    by (simp add: rolePermissions_def)
  have "\<exists>new. rules2 = rules1 @ new
      \<and> list_all2 (\<lambda>dp. allowRuleOf render u (permission dp)) (grants u) new"
    by (rule forEach_singles[OF _ r2]) (rule canPermission_step)
  then obtain gs where b: "rules2 = rules1 @ gs"
    "list_all2 (allowRuleOf render u) (map permission (grants u)) gs"
    by (auto simp: list_all2_map1)
  have "\<exists>new. rules = rules2 @ new \<and> list_all2 (denyRuleOf render u) (revokes u) new"
    by (rule forEach_singles[OF _ r3]) (rule cannotPermission_step)
  then obtain ds where c: "rules = rules2 @ ds" "list_all2 (denyRuleOf render u) (revokes u) ds"
    by auto
  show ?thesis using a b c by auto
qed


lemma deny_rules_inverted:
  "list_all2 (denyRuleOf render u) dps ds \<Longrightarrow> \<forall>d \<in> set ds. rule_inverted d"
  by (induction rule: list_all2_induct) (auto simp: denyRuleOf_def)

lemma allow_rules_not_inverted:
  "list_all2 (allowRuleOf render u) ps rs \<Longrightarrow> \<forall>r \<in> set rs. \<not> rule_inverted r"
  by (induction rule: list_all2_induct) (auto simp: allowRuleOf_def)

section \<open>The last matching rule decides\<close>


lemma relevantRuleFor_last:
  "relevantRuleFor matcher rules a s =
     (case filter (\<lambda>r. ruleMatches matcher r a s) rules of
        [] \<Rightarrow> None
      | m # ms \<Rightarrow> Some (last (m # ms)))"
  unfolding relevantRuleFor_def rulesFor_def ruleMatches_def
  by (rule find_rev_filter)




lemma can_last:
  "can matcher rules a s =
     (case filter (\<lambda>r. ruleMatches matcher r a s) rules of
        [] \<Rightarrow> False
      | m # ms \<Rightarrow> effect (last (m # ms)) = Allow)"
  by (simp add: can_def relevantRuleFor_last effect_def split: list.splits)

lemma can_last_iff:
  "can matcher rules a s =
     (filter (\<lambda>r. ruleMatches matcher r a s) rules \<noteq> []
      \<and> \<not> rule_inverted (last (filter (\<lambda>r. ruleMatches matcher r a s) rules)))"
  by (simp add: can_last effect_def split: list.splits)

lemma can_Nil: "\<not> can matcher [] a s"
  by (simp add: can_def relevantRuleFor_def rulesFor_def)


lemma not_Allow: "(e \<noteq> Allow) = (e = Deny)"
  by (cases e) simp_all

lemma can_false_by_deny:
  assumes ds: "\<forall>d \<in> set ds. rule_inverted d"
    and m: "\<exists>d \<in> set ds. ruleMatches matcher d a s"
  shows "\<not> can matcher (as @ ds) a s"
proof -
  let ?P = "\<lambda>r. ruleMatches matcher r a s"
  from m have ne: "filter ?P ds \<noteq> []"
    by (auto simp: filter_empty_conv)
  then have "last (filter ?P (as @ ds)) = last (filter ?P ds)" by simp
  moreover have "rule_inverted (last (filter ?P ds))"
    using last_filter_in[OF ne] ds by blast
  ultimately show ?thesis
    using ne by (simp add: can_last_iff)
qed

section \<open>The sample users compiled\<close>

lemmas sample_defs = createAbility_def canPermission_def cannotPermission_def parseConditions_def
  builder_can_def builder_cannot_because_def addRule_def build_def allowRule_def denyRule_def
  moderatorRole_def editorRole_def adminRole_def createPost_def readPost_def deletePost_def
  updateOwnPost_def manageAll_def isObject_def

lemma editor_compiled: "createAbility Mustache_render (Some editor) = Inr editorRules"
  by code_simp

lemma sanctioned_compiled: "createAbility Mustache_render (Some sanctioned) = Inr sanctionedRules"
  by (simp add: sample_defs sanctioned_def sanctionedRules_def)

lemma unexplained_compiled: "createAbility Mustache_render (Some unexplained) = Inr unexplainedRules"
  by (simp add: sample_defs unexplained_def unexplainedRules_def)

text \<open>The user with one direct grant and no role can read posts (section 8).\<close>

lemma directOnly_can_read:
  "createAbility Mustache_render (Some directOnly) = Inr [allowRule Read ''Post'' None]
   \<and> can conditionMatches [allowRule Read ''Post'' None] Read (SubjectType ''Post'')"
  by (simp add: sample_defs directOnly_def can_last_iff ruleMatches_def appliesTo_def
      matchesField_def matchesConditions_def)

text \<open>
  The rows that are not of the seed data compile as the builder stores them: the array
  condition becomes the fields of a rule without conditions, the empty subject leaves a
  rule without subject and without conditions, and the empty array makes \<open>build\<close>
  throw. The Allow rule with fields matches any post, the Deny rule with fields is not
  looked at when no field is queried, and the rule without subject applies to every type.
\<close>

lemma legacy_compiled: "createAbility Mustache_render (Some legacy) = Inr legacyRules"
  by code_simp

lemma noField_throws: "createAbility Mustache_render (Some noField) = Inl EmptyFields"
  by code_simp

lemma legacy_queries:
  "can conditionMatches legacyRules Read (post 1)
   \<and> can conditionMatches legacyRules Delete (post 1)
   \<and> can conditionMatches legacyRules Update (SubjectType ''Comment'')
   \<and> \<not> can conditionMatches legacyRules Create (post 1)"
  by (simp add: can_last_iff legacyRules_def allowRule_def denyRule_def ruleMatches_def
      appliesTo_def matchesField_def matchesConditions_def post_def)

section \<open>The decision of a query\<close>




lemma unconditional_deny_matches:
  assumes "denyRuleOf render u dp d"
    and "action (permission dp) = a" "subject (permission dp) = detectSubjectType s"
    and "conditions (permission dp) = JNull"
  shows "ruleMatches matcher d a s"
  using assms
  by (auto simp: denyRuleOf_def holds_def ruleMatches_def appliesTo_def matchesField_def
      matchesConditions_def parseConditions_null split: if_splits)

lemma revoke_wins:
  assumes c: "createAbility render (Some u) = Inr rules"
    and dp: "dp \<in> set (directPermissions u)" "inverted dp"
      "action (permission dp) = a" "subject (permission dp) = detectSubjectType s"
      "conditions (permission dp) = JNull"
  shows "\<not> can matcher rules a s"
proof -
  from createAbility_order[OF c] obtain rs gs ds where
    o: "rules = rs @ gs @ ds" "list_all2 (denyRuleOf render u) (revokes u) ds"
    by blast
  from dp have "dp \<in> set (revokes u)" by (simp add: revokes_def)
  from list_all2_witness[OF o(2) this] obtain d where d: "d \<in> set ds" "denyRuleOf render u dp d"
    by blast
  have "ruleMatches matcher d a s"
    by (rule unconditional_deny_matches[OF d(2) dp(3,4,5)])
  with d(1) have "\<exists>d \<in> set ds. ruleMatches matcher d a s" by blast
  from can_false_by_deny[OF deny_rules_inverted[OF o(2)] this, of "rs @ gs"]
  show ?thesis by (simp add: o(1))
qed

text \<open>
  C2. Whenever \<open>createAbility\<close> returns for a user, the rule list is the concatenation of
  the Allow rules of the roles' permissions in the order of the graph, the Allow rules of
  the direct grants, and the Deny rules of the direct revokes, one rule for each
  permission, with its action and its subject and with what the builder keeps of the
  parsed conditions (the conditions; for an array, the fields; for an empty subject,
  nothing). Consequently a direct revoke of an action on a type without conditions makes
  \<open>can\<close> false for that action and any subject of that type, whatever a role grants and
  whatever other rules there are. (\<open>createAbility\<close> does not return when a template
  makes the renderer throw or when a stored condition is the empty array.)
\<close>

theorem rules_in_order_revokes_last:
  assumes "createAbility render (Some u) = Inr rules"
  shows "(\<exists>rs gs ds. rules = rs @ gs @ ds
        \<and> list_all2 (allowRuleOf render u) (rolePermissions u) rs
        \<and> list_all2 (allowRuleOf render u) (map permission (grants u)) gs
        \<and> list_all2 (denyRuleOf render u) (revokes u) ds)
    \<and> ((\<exists>dp \<in> set (directPermissions u). inverted dp \<and> action (permission dp) = a
           \<and> subject (permission dp) = detectSubjectType s \<and> conditions (permission dp) = JNull)
         \<longrightarrow> \<not> can matcher rules a s)"
  using createAbility_order[OF assms] revoke_wins[OF assms] by blast

theorem rules_in_order_revokes_last_witness:
  "createAbility Mustache_render (Some sanctioned) = Inr sanctionedRules
   \<and> (\<exists>rs gs ds. sanctionedRules = rs @ gs @ ds
        \<and> list_all2 (allowRuleOf Mustache_render sanctioned) (rolePermissions sanctioned) rs
        \<and> list_all2 (allowRuleOf Mustache_render sanctioned) (map permission (grants sanctioned)) gs
        \<and> list_all2 (denyRuleOf Mustache_render sanctioned) (revokes sanctioned) ds)
   \<and> (\<exists>dp \<in> set (directPermissions sanctioned). inverted dp \<and> action (permission dp) = Delete
        \<and> subject (permission dp) = detectSubjectType (post 2) \<and> conditions (permission dp) = JNull)
   \<and> \<not> can conditionMatches sanctionedRules Delete (post 2)
   \<and> createAbility Mustache_render (Some legacy) = Inr legacyRules
   \<and> (\<exists>rs gs ds. legacyRules = rs @ gs @ ds
        \<and> list_all2 (allowRuleOf Mustache_render legacy) (rolePermissions legacy) rs
        \<and> list_all2 (allowRuleOf Mustache_render legacy) (map permission (grants legacy)) gs
        \<and> list_all2 (denyRuleOf Mustache_render legacy) (revokes legacy) ds)"
proof -
  have revoke: "\<exists>dp \<in> set (directPermissions sanctioned). inverted dp \<and> action (permission dp) = Delete
      \<and> subject (permission dp) = detectSubjectType (post 2) \<and> conditions (permission dp) = JNull"
    by (simp add: sanctioned_def deletePost_def post_def)
  have plain: "(\<exists>rs gs ds. sanctionedRules = rs @ gs @ ds
        \<and> list_all2 (allowRuleOf Mustache_render sanctioned) (rolePermissions sanctioned) rs
        \<and> list_all2 (allowRuleOf Mustache_render sanctioned) (map permission (grants sanctioned)) gs
        \<and> list_all2 (denyRuleOf Mustache_render sanctioned) (revokes sanctioned) ds)
      \<and> \<not> can conditionMatches sanctionedRules Delete (post 2)"
    using rules_in_order_revokes_last[OF sanctioned_compiled, of Delete "post 2" conditionMatches]
      revoke
    by blast
  note rules_in_order_revokes_last[OF legacy_compiled, of Delete "post 2" conditionMatches,
      THEN conjunct1]
  with plain sanctioned_compiled legacy_compiled revoke show ?thesis
    by blast
qed

lemma inverted_rule_is_revoke:
  assumes c: "createAbility render (Some u) = Inr rules"
    and r: "r \<in> set rules" "rule_inverted r"
  shows "\<exists>dp \<in> set (directPermissions u). inverted dp \<and> denyRuleOf render u dp r"
proof -
  from createAbility_order[OF c] obtain rs gs ds where
    o: "rules = rs @ gs @ ds" "list_all2 (allowRuleOf render u) (rolePermissions u) rs"
      "list_all2 (allowRuleOf render u) (map permission (grants u)) gs"
      "list_all2 (denyRuleOf render u) (revokes u) ds"
    by blast
  from r o(1) allow_rules_not_inverted[OF o(2)] allow_rules_not_inverted[OF o(3)]
  have "r \<in> set ds" by auto
  from list_all2_witness2[OF o(4) this] show ?thesis
    by (auto simp: revokes_def)
qed

lemma revoke_is_compiled:
  assumes c: "createAbility render (Some u) = Inr rules"
    and dp: "dp \<in> set (directPermissions u)" "inverted dp"
  shows "\<exists>r \<in> set rules. denyRuleOf render u dp r"
proof -
  from createAbility_order[OF c] obtain rs gs ds where
    o: "rules = rs @ gs @ ds" "list_all2 (denyRuleOf render u) (revokes u) ds"
    by blast
  from dp have "dp \<in> set (revokes u)" by (simp add: revokes_def)
  from list_all2_witness[OF o(2) this] show ?thesis
    using o(1) by auto
qed

text \<open>
  C10. Whenever \<open>createAbility\<close> returns, every Deny rule of the list comes from a direct
  revoke and carries as its reason the revoke's reason, or the empty string when the
  stored reason is null; so no Deny rule is without a reason, and a revoke stored with a
  null reason is compiled to a Deny rule whose reason is the empty string.
\<close>

theorem revoke_reason_is_a_string:
  assumes "createAbility render (Some u) = Inr rules"
  shows "(\<forall>r \<in> set rules. rule_inverted r \<longrightarrow>
            rule_reason r \<noteq> None
            \<and> (\<exists>dp \<in> set (directPermissions u). inverted dp
                 \<and> rule_reason r = Some (case reason dp of None \<Rightarrow> [] | Some why \<Rightarrow> why)))
      \<and> (\<forall>dp \<in> set (directPermissions u). inverted dp \<and> reason dp = None \<longrightarrow>
            (\<exists>r \<in> set rules. rule_inverted r \<and> rule_action r = action (permission dp)
               \<and> rule_subject r = subject (permission dp) \<and> rule_reason r = Some []))"
proof (intro conjI ballI impI)
  fix r assume r: "r \<in> set rules" "rule_inverted r"
  from inverted_rule_is_revoke[OF assms this]
  show "\<exists>dp \<in> set (directPermissions u). inverted dp
      \<and> rule_reason r = Some (case reason dp of None \<Rightarrow> [] | Some why \<Rightarrow> why)"
    by (auto simp: denyRuleOf_def)
  from inverted_rule_is_revoke[OF assms r]
  show "rule_reason r \<noteq> None"
    by (auto simp: denyRuleOf_def)
next
  fix dp assume "dp \<in> set (directPermissions u)" "inverted dp \<and> reason dp = None"
  then show "\<exists>r \<in> set rules. rule_inverted r \<and> rule_action r = action (permission dp)
      \<and> rule_subject r = subject (permission dp) \<and> rule_reason r = Some []"
    using revoke_is_compiled[OF assms, of dp] by (auto simp: denyRuleOf_def)
qed

theorem revoke_reason_is_a_string_witness:
  "createAbility Mustache_render (Some unexplained) = Inr unexplainedRules
   \<and> (\<exists>dp \<in> set (directPermissions unexplained). inverted dp \<and> reason dp = None)
   \<and> (\<exists>r \<in> set unexplainedRules. rule_inverted r \<and> rule_action r = Delete
         \<and> rule_subject r = ''Post'' \<and> rule_reason r = Some [])"
proof -
  have revoke: "\<exists>dp \<in> set (directPermissions unexplained). inverted dp \<and> reason dp = None"
    by (simp add: unexplained_def)
  then obtain dp where dp: "dp \<in> set (directPermissions unexplained)" "inverted dp \<and> reason dp = None"
    by blast
  then have p: "action (permission dp) = Delete" "subject (permission dp) = ''Post''"
    by (simp_all add: unexplained_def deletePost_def)
  from revoke_reason_is_a_string[OF unexplained_compiled] dp
  have "\<exists>r \<in> set unexplainedRules. rule_inverted r \<and> rule_action r = action (permission dp)
      \<and> rule_subject r = subject (permission dp) \<and> rule_reason r = Some []"
    by blast
  with p have "\<exists>r \<in> set unexplainedRules. rule_inverted r \<and> rule_action r = Delete
      \<and> rule_subject r = ''Post'' \<and> rule_reason r = Some []"
    by simp
  then show ?thesis
    using unexplained_compiled revoke by blast
qed

lemma restricted_compiled: "createAbility Mustache_render (Some restricted) = Inr restrictedRules"
  by code_simp

lemma ruleMatches_type_only:
  "ruleMatches matcher r a (SubjectType t) =
     (appliesTo r a t \<and> (rule_conditions r = None \<or> \<not> rule_inverted r))"
  by (simp add: ruleMatches_def matchesConditions_def split: option.splits)

lemma can_type_only:
  "can matcher rules a (SubjectType t) =
     (case filter (\<lambda>r. appliesTo r a t \<and> (rule_conditions r = None \<or> \<not> rule_inverted r)) rules of
        [] \<Rightarrow> False
      | m # ms \<Rightarrow> \<not> rule_inverted (last (m # ms)))"
  by (simp add: can_last ruleMatches_type_only effect_def split: list.splits)

lemma can_type_only_grant:
  assumes g: "\<exists>r \<in> set rules. appliesTo r a t \<and> \<not> rule_inverted r"
    and d: "\<forall>r \<in> set rules. appliesTo r a t \<and> rule_inverted r \<longrightarrow> rule_conditions r \<noteq> None"
  shows "can matcher rules a (SubjectType t)"
proof -
  let ?P = "\<lambda>r. ruleMatches matcher r a (SubjectType t)"
  from g have ne: "filter ?P rules \<noteq> []"
    by (auto simp: filter_empty_conv ruleMatches_type_only)
  from last_filter_in[OF ne] have "last (filter ?P rules) \<in> set rules" "?P (last (filter ?P rules))"
    by simp_all
  with d have "\<not> rule_inverted (last (filter ?P rules))"
    by (auto simp: ruleMatches_type_only)
  with ne show ?thesis by (simp add: can_last_iff)
qed

text \<open>
  C3, as the specification states it, does not hold: the editor's only rule for
  \<^verbatim>\<open>update\<close> on \<^verbatim>\<open>Post\<close> carries the condition \<^verbatim>\<open>{authorId: 2}\<close>, and the type-only
  query \<^verbatim>\<open>can(update, "Post")\<close> is true. (The routes of app.controller.ts check
  \<^verbatim>\<open>ability.can(Action.update, 'Post')\<close> in the guard before the service checks the
  post itself, for permissions stored with \<^verbatim>\<open>{ authorId: "{{id}}" }\<close>.)
\<close>

theorem conditional_grant_type_only_counterexample:
  "createAbility Mustache_render (Some editor) =
     Inr [allowRule Create ''Post'' None,
          allowRule Update ''Post'' (Some (JObj [(''authorId'', JNum 2)]))]
   \<and> can conditionMatches
       [allowRule Create ''Post'' None,
        allowRule Update ''Post'' (Some (JObj [(''authorId'', JNum 2)]))]
       Update (SubjectType ''Post'')"
  using editor_compiled
  by (simp add: editorRules_def can_type_only allowRule_def appliesTo_def matchesField_def)

text \<open>
  C3, amended. On a type-only query no condition is evaluated: a rule that applies to
  the action and the type matches when it has no conditions or when it is an Allow rule.
  So a conditional Allow rule matches, only conditional Deny rules are skipped, and
  \<open>can\<close> answers by the last rule that matches in this sense. In particular, when some
  Allow rule applies (with conditions or without) and every Deny rule that applies
  carries conditions, \<open>can\<close> is true.
\<close>

theorem type_only_query_skips_conditions:
  "(can matcher rules a (SubjectType t) =
      (case filter (\<lambda>r. appliesTo r a t \<and> (rule_conditions r = None \<or> \<not> rule_inverted r)) rules of
         [] \<Rightarrow> False
       | m # ms \<Rightarrow> \<not> rule_inverted (last (m # ms))))
   \<and> ((\<exists>r \<in> set rules. appliesTo r a t \<and> \<not> rule_inverted r)
        \<and> (\<forall>r \<in> set rules. appliesTo r a t \<and> rule_inverted r \<longrightarrow> rule_conditions r \<noteq> None)
       \<longrightarrow> can matcher rules a (SubjectType t))"
  using can_type_only[of matcher rules a t] can_type_only_grant[of rules a t matcher]
  by blast

theorem type_only_query_skips_conditions_witness:
  "createAbility Mustache_render (Some restricted) = Inr restrictedRules
   \<and> (\<exists>r \<in> set restrictedRules. appliesTo r Delete ''Post'' \<and> \<not> rule_inverted r)
   \<and> (\<exists>r \<in> set restrictedRules. appliesTo r Delete ''Post'' \<and> rule_inverted r
         \<and> rule_conditions r \<noteq> None)
   \<and> can conditionMatches restrictedRules Delete (SubjectType ''Post'')"
proof -
  have g: "\<exists>r \<in> set restrictedRules. appliesTo r Delete ''Post'' \<and> \<not> rule_inverted r"
    by (simp add: restrictedRules_def allowRule_def denyRule_def appliesTo_def matchesField_def)
  have d: "\<forall>r \<in> set restrictedRules. appliesTo r Delete ''Post'' \<and> rule_inverted r
      \<longrightarrow> rule_conditions r \<noteq> None"
    by (simp add: restrictedRules_def allowRule_def denyRule_def appliesTo_def matchesField_def)
  have d': "\<exists>r \<in> set restrictedRules. appliesTo r Delete ''Post'' \<and> rule_inverted r
      \<and> rule_conditions r \<noteq> None"
    by (simp add: restrictedRules_def allowRule_def denyRule_def appliesTo_def matchesField_def)
  from type_only_query_skips_conditions[of conditionMatches restrictedRules Delete "''Post''",
      THEN conjunct2] g d
  have "can conditionMatches restrictedRules Delete (SubjectType ''Post'')"
    by blast
  with restricted_compiled g d' show ?thesis by blast
qed

section \<open>Expired and inactive roles\<close>

lemma find_append:
  "find P (xs @ ys) = (case find P xs of None \<Rightarrow> find P ys | Some x \<Rightarrow> Some x)"
  by (induction xs) auto

lemma getUser_drops_role:
  assumes "(\<exists>t. ur_expiresAt ur = Some t \<and> t \<le> now) \<or> \<not> role_isActive (role ur)"
  shows "getUserWithPermissions (us1 @ su\<lparr>roles := before @ ur # after\<rparr> # us2) now uid =
         getUserWithPermissions (us1 @ su\<lparr>roles := before @ after\<rparr> # us2) now uid"
proof -
  from assms have "\<not> (role_isActive (role ur) \<and> notExpired now (ur_expiresAt ur))"
    by (auto simp: notExpired_def)
  then show ?thesis
    by (simp add: getUserWithPermissions_def find_append split: option.splits)
qed

lemma getUser_only_role:
  assumes "(\<exists>t. ur_expiresAt ur = Some t \<and> t \<le> now) \<or> \<not> role_isActive (role ur)"
    and "\<forall>x \<in> set (us1 @ us2). user_id x \<noteq> user_id su"
    and "roles su = [ur]" "directPermissions su = []"
  shows "createAbility render (getUserWithPermissions (us1 @ su # us2) now (user_id su)) = Inr []"
proof -
  let ?P = "\<lambda>u. user_id u = user_id su \<and> isActive u \<and> deletedAt u = None"
  from assms(1) have "\<not> (role_isActive (role ur) \<and> notExpired now (ur_expiresAt ur))"
    by (auto simp: notExpired_def)
  moreover from assms(2) have "find ?P us1 = None" "find ?P us2 = None"
    by (auto simp: find_None_iff)
  ultimately show ?thesis
    using assms(3,4)
    by (auto simp: getUserWithPermissions_def find_append createAbility_def build_def
        split: option.splits)
qed

text \<open>
  C4. A role assignment whose \<open>expiresAt\<close> is not after the instant of the query, or whose
  role is inactive, contributes nothing: the user that \<open>getUserWithPermissions\<close> loads,
  and so the rule list compiled from it, is the same as if the assignment were not
  stored. When it is the user's only assignment and there are no direct permissions, the
  compiled rule list is empty and every query is denied, although the role's own
  permissions are unchanged. (User ids are the table's key.)
\<close>

theorem expired_or_inactive_role_is_dropped:
  assumes "(\<exists>t. ur_expiresAt ur = Some t \<and> t \<le> now) \<or> \<not> role_isActive (role ur)"
  shows "getUserWithPermissions (us1 @ su\<lparr>roles := before @ ur # after\<rparr> # us2) now uid =
           getUserWithPermissions (us1 @ su\<lparr>roles := before @ after\<rparr> # us2) now uid
    \<and> createAbility render
          (getUserWithPermissions (us1 @ su\<lparr>roles := before @ ur # after\<rparr> # us2) now uid) =
        createAbility render
          (getUserWithPermissions (us1 @ su\<lparr>roles := before @ after\<rparr> # us2) now uid)
    \<and> ((\<forall>x \<in> set (us1 @ us2). user_id x \<noteq> user_id su) \<and> roles su = [ur]
          \<and> directPermissions su = []
         \<longrightarrow> createAbility render (getUserWithPermissions (us1 @ su # us2) now (user_id su)) = Inr []
             \<and> \<not> can matcher [] a s)"
  using getUser_drops_role[OF assms, where ?us1.0 = us1 and su = su and before = before
      and after = after and ?us2.0 = us2 and uid = uid]
    getUser_only_role[OF assms, where ?us1.0 = us1 and su = su and render = render and ?us2.0 = us2]
    can_Nil[of matcher a s]
  by simp

theorem expired_or_inactive_role_is_dropped_witness:
  "(\<exists>t. ur_expiresAt expiredAssignment = Some t \<and> t \<le> 1700000000000)
   \<and> roles expiredAdmin = [expiredAssignment] \<and> directPermissions expiredAdmin = []
   \<and> createAbility Mustache_render
        (getUserWithPermissions [editor, expiredAdmin] 1700000000000 10) = Inr []
   \<and> \<not> can conditionMatches [] Manage (SubjectType ''all'')
   \<and> createAbility Mustache_render (Some expiredAdmin) = Inr [allowRule Manage ''all'' None]
   \<and> can conditionMatches [allowRule Manage ''all'' None] Manage (SubjectType ''all'')"
proof -
  have expired: "(\<exists>t. ur_expiresAt expiredAssignment = Some t \<and> t \<le> 1700000000000)
      \<or> \<not> role_isActive (role expiredAssignment)"
    by (simp add: expiredAssignment_def)
  have only: "(\<forall>x \<in> set ([editor] @ []). user_id x \<noteq> user_id expiredAdmin)
      \<and> roles expiredAdmin = [expiredAssignment] \<and> directPermissions expiredAdmin = []"
    by (simp add: editor_def expiredAdmin_def)
  have key: "user_id expiredAdmin = 10"
    by (simp add: expiredAdmin_def)
  from expired_or_inactive_role_is_dropped[OF expired, where ?us1.0 = "[editor]" and ?us2.0 = "[]"
      and su = expiredAdmin and render = Mustache_render and matcher = conditionMatches
      and a = Manage and s = "SubjectType ''all''", THEN conjunct2, THEN conjunct2] only
  have dropped: "createAbility Mustache_render
        (getUserWithPermissions ([editor] @ expiredAdmin # []) 1700000000000 (user_id expiredAdmin)) = Inr []
      \<and> \<not> can conditionMatches [] Manage (SubjectType ''all'')"
    by blast
  have generic: "createAbility Mustache_render (Some expiredAdmin) = Inr [allowRule Manage ''all'' None]"
    by (simp add: sample_defs expiredAdmin_def expiredAssignment_def)
  have granted: "can conditionMatches [allowRule Manage ''all'' None] Manage (SubjectType ''all'')"
    by (simp add: can_type_only allowRule_def appliesTo_def matchesField_def)
  from dropped key only generic granted show ?thesis
    by (simp add: expiredAssignment_def)
qed

section \<open>Parsing the conditions\<close>

lemma clone_throws:
  "(\<exists>e. cloneDeepWith f c = Inl e) = (\<exists>s \<in> set (stringLeaves c). \<exists>e. f s = Inl e)"
  "(\<exists>e. cloneArray f xs = Inl e) = (\<exists>s \<in> set (stringLeavesArray xs). \<exists>e. f s = Inl e)"
  "(\<exists>e. cloneObject f kvs = Inl e) = (\<exists>s \<in> set (stringLeavesObject kvs). \<exists>e. f s = Inl e)"
proof (induction f c and f xs and f kvs rule: cloneDeepWith_cloneArray_cloneObject.induct)
  case (8 f x xs)
  then show ?case by (cases "cloneDeepWith f x") (auto split: sum.splits)
next
  case (10 f k v kvs)
  then show ?case by (cases "cloneDeepWith f v") (auto split: sum.splits)
qed (auto split: sum.splits)

lemma clone_maps:
  "(\<forall>s \<in> set (stringLeaves c). f s = Inr (g s)) \<Longrightarrow> cloneDeepWith f c = Inr (mapLeaves g c)"
  "(\<forall>s \<in> set (stringLeavesArray xs). f s = Inr (g s)) \<Longrightarrow>
     cloneArray f xs = Inr (mapLeavesArray g xs)"
  "(\<forall>s \<in> set (stringLeavesObject kvs). f s = Inr (g s)) \<Longrightarrow>
     cloneObject f kvs = Inr (mapLeavesObject g kvs)"
  by (induction f c and f xs and f kvs rule: cloneDeepWith_cloneArray_cloneObject.induct) auto

lemma customizer_throws: "(\<exists>e. customizer render u s = Inl e) = (\<exists>e. render s u = Inl e)"
  by (auto simp: customizer_def split: sum.splits)

lemma customizer_coerce: "render s u = Inr r \<Longrightarrow> customizer render u s = Inr (coerce r)"
  by (simp add: customizer_def coerce_def)

lemma parseConditions_throws:
  "(\<exists>e. parseConditions render c u = Inl e) =
     (isObject c \<and> (\<exists>s \<in> set (stringLeaves c). \<exists>e. render s u = Inl e))"
proof (cases "isObject c")
  case True
  then have "c \<noteq> JNull" by (auto simp: isObject_def)
  with True have "(\<exists>e. parseConditions render c u = Inl e) =
      (\<exists>e. cloneDeepWith (customizer render u) c = Inl e)"
    by (auto simp: parseConditions_def split: sum.splits)
  then show ?thesis
    using True by (simp add: clone_throws(1) customizer_throws)
next
  case False
  then show ?thesis by (simp add: parseConditions_def)
qed

lemma parseConditions_not_object: "\<not> isObject c \<Longrightarrow> parseConditions render c u = Inr None"
  by (simp add: parseConditions_def)

lemma parseConditions_maps:
  assumes "isObject c" and "\<forall>s \<in> set (stringLeaves c). render s u = Inr (out s)"
  shows "parseConditions render c u = Inr (Some (mapLeaves (\<lambda>s. coerce (out s)) c))"
proof -
  from assms(2) have "\<forall>s \<in> set (stringLeaves c). customizer render u s = Inr (coerce (out s))"
    by (simp add: customizer_coerce)
  from clone_maps(1)[OF this] assms(1) show ?thesis
    by (auto simp: parseConditions_def isObject_def)
qed

lemma renderFrom_tag:
  "CHR ''}'' \<notin> set name \<Longrightarrow>
   renderFrom u (InTag acc) (name @ ''}}'' @ rest) =
     (case renderTag u (rev acc @ name) of
        Inl e \<Rightarrow> Inl e
      | Inr v \<Rightarrow> (case renderFrom u InText rest of Inl e \<Rightarrow> Inl e | Inr out \<Rightarrow> Inr (v @ out)))"
proof (induction name arbitrary: acc)
  case Nil
  then show ?case by simp
next
  case (Cons c cs)
  then have "c \<noteq> CHR ''}''" "CHR ''}'' \<notin> set cs" by auto
  with Cons.IH[of "c # acc"] show ?case
    by (cases "cs @ ''}}'' @ rest") auto
qed

lemma render_single_tag:
  "CHR ''}'' \<notin> set name \<Longrightarrow> Mustache_render (''{{'' @ name @ ''}}'') u = renderTag u name"
  using renderFrom_tag[of name u "[]" "[]"]
  by (auto simp: Mustache_render_def split: sum.splits)

lemma render_unknown:
  assumes "lookup u (trim name) = NotFound" "CHR ''}'' \<notin> set name"
    and "trim name = [] \<or> hd (trim name) \<notin> set ''#^/>{&=!''"
  shows "Mustache_render (''{{'' @ name @ ''}}'') u = Inr []"
proof -
  have "Mustache_render (''{{'' @ name @ ''}}'') u = renderTag u name"
    by (rule render_single_tag[OF assms(2)])
  also have "\<dots> = Inr []"
    using assms(1,3) by (auto simp: renderTag_def escapedValue_def Let_def)
  finally show ?thesis .
qed

lemma canPermission_null:
  "canPermission render u \<lparr>action = a, subject = t, conditions = JNull\<rparr> rules =
     Inr (rules @ [allowRule a t None])"
  by (simp add: canPermission_def parseConditions_null builder_can_def addRule_def allowRule_def)

text \<open>
  C5, as the specification states it, does not hold: \<^verbatim>\<open>Mustache.render\<close> throws on a
  tag that is not closed and \<open>parseConditions\<close> has no handler, so the template
  \<^verbatim>\<open>{"authorId": "{{id"}\<close> makes it throw.
\<close>

theorem malformed_template_counterexample:
  "parseConditions Mustache_render (JObj [(''authorId'', JStr ''{{id'')]) editor =
     Inl (MustacheError ''Unclosed tag'')"
  by code_simp

text \<open>
  C5, amended. \<open>parseConditions\<close> throws exactly when the template is an object or an
  array and \<^verbatim>\<open>Mustache.render\<close> throws on one of its string leaves. A condition that is
  null or not an object yields \<^verbatim>\<open>undefined\<close> without rendering anything, and a permission
  with a null condition compiles to a rule without conditions. In the Mustache fragment,
  a tag naming no property of the user renders as the empty string.
\<close>

theorem parseConditions_throws_only_with_render:
  "((\<exists>e. parseConditions render c u = Inl e) =
      (isObject c \<and> (\<exists>s \<in> set (stringLeaves c). \<exists>e. render s u = Inl e)))
   \<and> (\<not> isObject c \<longrightarrow> parseConditions render c u = Inr None)
   \<and> canPermission render u \<lparr>action = a, subject = t, conditions = JNull\<rparr> rules =
       Inr (rules @ [allowRule a t None])
   \<and> (lookup u (trim name) = NotFound \<and> CHR ''}'' \<notin> set name
        \<and> (trim name = [] \<or> hd (trim name) \<notin> set ''#^/>{&=!'')
       \<longrightarrow> Mustache_render (''{{'' @ name @ ''}}'') u = Inr [])"
  using parseConditions_throws[of render c u] parseConditions_not_object[of c render u]
    canPermission_null[of render u a t rules] render_unknown[of u name]
  by blast

theorem parseConditions_throws_only_with_render_witness:
  "\<not> isObject (JStr ''{{id'') \<and> parseConditions Mustache_render (JStr ''{{id'') editor = Inr None
   \<and> lookup editor (trim ''nickname'') = NotFound \<and> CHR ''}'' \<notin> set ''nickname''
   \<and> Mustache_render ''{{nickname}}'' editor = Inr []
   \<and> isObject (JObj [(''authorId'', JStr ''{{id'')])
   \<and> (\<exists>e. parseConditions Mustache_render (JObj [(''authorId'', JStr ''{{id'')]) editor = Inl e)
   \<and> (\<exists>e. Mustache_render ''{{id'' editor = Inl e)"
proof -
  note inst = parseConditions_throws_only_with_render[of Mustache_render _ editor _ _ _ "''nickname''"]
  have scalar: "\<not> isObject (JStr ''{{id'')"
    by (simp add: isObject_def)
  with inst[of "JStr ''{{id''", THEN conjunct2, THEN conjunct1]
  have undef: "parseConditions Mustache_render (JStr ''{{id'') editor = Inr None"
    by blast
  have unknown: "lookup editor (trim ''nickname'') = NotFound \<and> CHR ''}'' \<notin> set ''nickname''
      \<and> (trim ''nickname'' = [] \<or> hd (trim ''nickname'') \<notin> set ''#^/>{&=!'')"
    by (simp add: lookup_def trim_def isWhitespace_def editor_def objectPrototype_def)
  with inst[of JNull Manage "[]" "[]", THEN conjunct2, THEN conjunct2, THEN conjunct2]
  have empty: "Mustache_render (''{{'' @ ''nickname'' @ ''}}'') editor = Inr []"
    by blast
  have object: "isObject (JObj [(''authorId'', JStr ''{{id'')])"
    by (simp add: isObject_def)
  have unclosed: "Mustache_render ''{{id'' editor = Inl (MustacheError ''Unclosed tag'')"
    by (simp add: Mustache_render_def)
  with object inst[of "JObj [(''authorId'', JStr ''{{id'')]", THEN conjunct1]
  have throws: "\<exists>e. parseConditions Mustache_render (JObj [(''authorId'', JStr ''{{id'')]) editor = Inl e"
    by simp
  from scalar undef unknown empty object throws unclosed show ?thesis
    by simp
qed

section \<open>Numeric leaves\<close>

lemma digitValue_digitChar: "d < 10 \<Longrightarrow> digitValue (digitChar d) = d"
proof -
  assume "d < 10"
  then have "d = 0 \<or> d = 1 \<or> d = 2 \<or> d = 3 \<or> d = 4 \<or> d = 5 \<or> d = 6 \<or> d = 7 \<or> d = 8 \<or> d = 9"
    by arith
  then show ?thesis
    by (elim disjE) (simp_all add: digitValue_def digitChar_def)
qed

lemma isDigit_digitChar: "d < 10 \<Longrightarrow> isDigit (digitChar d)"
proof -
  assume "d < 10"
  then have "d = 0 \<or> d = 1 \<or> d = 2 \<or> d = 3 \<or> d = 4 \<or> d = 5 \<or> d = 6 \<or> d = 7 \<or> d = 8 \<or> d = 9"
    by arith
  then show ?thesis
    by (elim disjE) (simp_all add: isDigit_def digitChar_def)
qed

lemma natToString_digits: "natToString n \<noteq> [] \<and> list_all isDigit (natToString n)"
proof (induction n rule: natToString.induct)
  case (1 n)
  show ?case
  proof (cases "n < 10")
    case True
    then show ?thesis by (simp add: natToString.simps[of n] isDigit_digitChar)
  next
    case False
    with 1 show ?thesis by (simp add: natToString.simps[of n] isDigit_digitChar)
  qed
qed

lemma foldl_digits_natToString:
  "foldl (\<lambda>n c. 10 * n + digitValue c) 0 (natToString n) = n"
proof (induction n rule: natToString.induct)
  case (1 n)
  show ?case
  proof (cases "n < 10")
    case True
    then show ?thesis by (simp add: natToString.simps[of n] digitValue_digitChar)
  next
    case False
    with 1 show ?thesis by (simp add: natToString.simps[of n] digitValue_digitChar)
  qed
qed

lemma Number_natToString: "Number (natToString n) = int n"
  by (simp add: Number_def foldl_digits_natToString)

lemma allDigits_natToString: "allDigits (natToString n)"
  using natToString_digits[of n] by (simp add: allDigits_def)

lemma coerce_id: "0 \<le> i \<Longrightarrow> coerce (numberToString i) = JNum i"
  by (simp add: coerce_def numberToString_def allDigits_natToString Number_natToString)

lemma render_id: "Mustache_render ''{{id}}'' u = Inr (numberToString (user_id u))"
  by (simp add: Mustache_render_def renderTag_def trim_def isWhitespace_def escapedValue_def
      lookup_def)

lemma parse_id:
  assumes "0 \<le> user_id u"
  shows "parseConditions Mustache_render (JObj [(k, JStr ''{{id}}'')]) u =
           Inr (Some (JObj [(k, JNum (user_id u))]))"
proof -
  let ?c = "JObj [(k, JStr ''{{id}}'')]"
  let ?out = "\<lambda>s::string. numberToString (user_id u)"
  have obj: "isObject ?c" by (simp add: isObject_def)
  have leaves: "\<forall>s \<in> set (stringLeaves ?c). Mustache_render s u = Inr (?out s)"
    by (simp add: render_id)
  have "parseConditions Mustache_render ?c u = Inr (Some (mapLeaves (\<lambda>s. coerce (?out s)) ?c))"
    using obj leaves by (rule parseConditions_maps)
  with assms show ?thesis
    by (simp add: coerce_id)
qed

lemma coerce_iff:
  "coerce r = (if r \<noteq> [] \<and> set r \<subseteq> set ''0123456789'' then JNum (Number r) else JStr r)"
  unfolding coerce_def allDigits_def isDigit_def list_all_iff subset_eq
  by (rule refl)

text \<open>
  C6. When \<^verbatim>\<open>Mustache.render\<close> returns on every string leaf of a template object,
  \<open>parseConditions\<close> returns the template with each string leaf, at any depth, replaced
  by its rendering, coerced: a rendering of one or more decimal digits becomes the number
  it denotes, any other rendering stays a string. \<^verbatim>\<open>Number\<close> reads back the decimal
  writing of a number, so the leaf \<^verbatim>\<open>"{{id}}"\<close> becomes the number that is the user's id
  (for id 7 the number 7, not the string).
\<close>

theorem string_leaves_are_coerced:
  "(isObject c \<and> (\<forall>s \<in> set (stringLeaves c). render s u = Inr (out s))
      \<longrightarrow> parseConditions render c u = Inr (Some (mapLeaves (\<lambda>s. coerce (out s)) c)))
   \<and> coerce r = (if r \<noteq> [] \<and> set r \<subseteq> set ''0123456789'' then JNum (Number r) else JStr r)
   \<and> Number (natToString n) = int n
   \<and> (0 \<le> user_id v
        \<longrightarrow> parseConditions Mustache_render (JObj [(k, JStr ''{{id}}'')]) v =
              Inr (Some (JObj [(k, JNum (user_id v))])))"
proof (intro conjI impI)
  assume h: "isObject c \<and> (\<forall>s \<in> set (stringLeaves c). render s u = Inr (out s))"
  from h[THEN conjunct1] h[THEN conjunct2]
  show "parseConditions render c u = Inr (Some (mapLeaves (\<lambda>s. coerce (out s)) c))"
    by (rule parseConditions_maps)
next
  show "coerce r = (if r \<noteq> [] \<and> set r \<subseteq> set ''0123456789'' then JNum (Number r) else JStr r)"
    by (rule coerce_iff)
next
  show "Number (natToString n) = int n"
    by (rule Number_natToString)
next
  assume "0 \<le> user_id v"
  then show "parseConditions Mustache_render (JObj [(k, JStr ''{{id}}'')]) v =
      Inr (Some (JObj [(k, JNum (user_id v))]))"
    by (rule parse_id)
qed

lemma render_email_seven: "Mustache_render ''{{email}}'' seven = Inr ''seven@test.com''"
  by code_simp

lemma render_id_seven: "Mustache_render ''{{id}}'' seven = Inr ''7''"
  by code_simp

theorem string_leaves_are_coerced_witness:
  "0 \<le> user_id seven
   \<and> parseConditions Mustache_render (JObj [(''authorId'', JStr ''{{id}}'')]) seven =
       Inr (Some (JObj [(''authorId'', JNum 7)]))
   \<and> isObject (JObj [(''authorId'', JStr ''{{id}}''), (''owner'', JStr ''{{email}}'')])
   \<and> parseConditions Mustache_render
        (JObj [(''authorId'', JStr ''{{id}}''), (''owner'', JStr ''{{email}}'')]) seven =
       Inr (Some (JObj [(''authorId'', JNum 7), (''owner'', JStr ''seven@test.com'')]))"
proof -
  let ?c = "JObj [(''authorId'', JStr ''{{id}}''), (''owner'', JStr ''{{email}}'')]"
  let ?out = "\<lambda>s. if s = ''{{id}}'' then ''7'' else ''seven@test.com''"
  note inst = string_leaves_are_coerced[of ?c Mustache_render seven ?out "[]" 0 seven "''authorId''"]
  have pos: "0 \<le> user_id seven" and seven: "user_id seven = 7"
    by (simp_all add: seven_def)
  from inst[THEN conjunct2, THEN conjunct2, THEN conjunct2] pos seven
  have one: "parseConditions Mustache_render (JObj [(''authorId'', JStr ''{{id}}'')]) seven =
       Inr (Some (JObj [(''authorId'', JNum 7)]))"
    by simp
  have obj: "isObject ?c" by (simp add: isObject_def)
  have leaves: "\<forall>s \<in> set (stringLeaves ?c). Mustache_render s seven = Inr (?out s)"
    by (simp add: render_id_seven render_email_seven)
  from inst[THEN conjunct1] obj leaves
  have "parseConditions Mustache_render ?c seven = Inr (Some (mapLeaves (\<lambda>s. coerce (?out s)) ?c))"
    by blast
  moreover have "mapLeaves (\<lambda>s. coerce (?out s)) ?c =
      JObj [(''authorId'', JNum 7), (''owner'', JStr ''seven@test.com'')]"
    by (simp add: coerce_def allDigits_def isDigit_def Number_def digitValue_def)
  ultimately show ?thesis using pos one obj by simp
qed

section \<open>Matching a condition\<close>

lemma conditionMatches_fields:
  "conditionMatches (JObj kvs) obj = (\<forall>(field, v) \<in> set kvs. fieldMatches v (obj field))"
  by (simp add: conditionMatches_def list_all_iff)

lemma fieldMatches_ne: "fieldMatches (JObj [(''$ne'', v)]) x = (x \<noteq> Some v)"
  by (simp add: fieldMatches_def)

lemma fieldMatches_value: "\<not> isObject v \<Longrightarrow> fieldMatches v x = (x = Some v)"
  by (cases v) (simp_all add: fieldMatches_def isObject_def)

lemma ne_seven:
  "\<not> conditionMatches (JObj [(''authorId'', JObj [(''$ne'', JNum 7)])]) [''authorId'' \<mapsto> JNum 7]"
  "conditionMatches (JObj [(''authorId'', JObj [(''$ne'', JNum 7)])]) [''authorId'' \<mapsto> JNum 9]"
  by (simp_all add: conditionMatches_def fieldMatches_def)

text \<open>
  C7. A resolved condition is matched field by field, and every field of the map must
  match. A field paired with a plain value matches exactly when the resource's value of
  that field equals it (a missing field and a string in place of a number do not); a
  field paired with \<^verbatim>\<open>{"$ne": value}\<close> matches exactly when the resource's value
  differs. The condition \<^verbatim>\<open>{authorId: {"$ne": 7}}\<close> does not match a resource with
  \<^verbatim>\<open>authorId = 7\<close> and matches one with \<^verbatim>\<open>authorId = 9\<close>.
\<close>

theorem conditions_match_fieldwise:
  "conditionMatches (JObj kvs) obj = (\<forall>(field, v) \<in> set kvs. fieldMatches v (obj field))
   \<and> (\<not> isObject v \<longrightarrow> fieldMatches v x = (x = Some v))
   \<and> fieldMatches (JObj [(''$ne'', w)]) x = (x \<noteq> Some w)
   \<and> \<not> conditionMatches (JObj [(''authorId'', JObj [(''$ne'', JNum 7)])]) [''authorId'' \<mapsto> JNum 7]
   \<and> conditionMatches (JObj [(''authorId'', JObj [(''$ne'', JNum 7)])]) [''authorId'' \<mapsto> JNum 9]"
  using conditionMatches_fields[of kvs obj] fieldMatches_value[of v x] fieldMatches_ne[of w x]
    ne_seven
  by blast

theorem conditions_match_fieldwise_witness:
  "\<not> isObject (JNum 2)
   \<and> fieldMatches (JNum 2) (Some (JNum 2)) \<and> \<not> fieldMatches (JNum 2) (Some (JNum 5))
   \<and> \<not> fieldMatches (JNum 2) (Some (JStr ''2'')) \<and> \<not> fieldMatches (JNum 2) None
   \<and> conditionMatches (JObj [(''authorId'', JNum 2), (''isPublished'', JBool True)])
        [''id'' \<mapsto> JNum 100, ''authorId'' \<mapsto> JNum 2, ''isPublished'' \<mapsto> JBool True]
   \<and> \<not> conditionMatches (JObj [(''authorId'', JNum 2), (''isPublished'', JBool False)])
        [''id'' \<mapsto> JNum 100, ''authorId'' \<mapsto> JNum 2, ''isPublished'' \<mapsto> JBool True]
   \<and> can conditionMatches editorRules Update (post 2)
   \<and> \<not> can conditionMatches editorRules Update (post 5)"
proof -
  have prim: "\<not> isObject (JNum 2)" by (simp add: isObject_def)
  note v = conditions_match_fieldwise[where v = "JNum 2", THEN conjunct2, THEN conjunct1]
  from v[of "Some (JNum 2)"] v[of "Some (JNum 5)"] v[of "Some (JStr ''2'')"] v[of None] prim
  have fields: "fieldMatches (JNum 2) (Some (JNum 2)) \<and> \<not> fieldMatches (JNum 2) (Some (JNum 5))
      \<and> \<not> fieldMatches (JNum 2) (Some (JStr ''2'')) \<and> \<not> fieldMatches (JNum 2) None"
    by simp
  have both: "conditionMatches (JObj [(''authorId'', JNum 2), (''isPublished'', JBool True)])
        [''id'' \<mapsto> JNum 100, ''authorId'' \<mapsto> JNum 2, ''isPublished'' \<mapsto> JBool True]"
    by (simp add: conditionMatches_def fieldMatches_def)
  have one: "\<not> conditionMatches (JObj [(''authorId'', JNum 2), (''isPublished'', JBool False)])
        [''id'' \<mapsto> JNum 100, ''authorId'' \<mapsto> JNum 2, ''isPublished'' \<mapsto> JBool True]"
    by (simp add: conditionMatches_def fieldMatches_def)
  have own: "can conditionMatches editorRules Update (post 2)"
    by (simp add: can_last_iff editorRules_def allowRule_def ruleMatches_def appliesTo_def
        matchesField_def matchesConditions_def post_def conditionMatches_def fieldMatches_def)
  have other: "\<not> can conditionMatches editorRules Update (post 5)"
    by (simp add: can_last_iff editorRules_def allowRule_def ruleMatches_def appliesTo_def
        matchesField_def matchesConditions_def post_def conditionMatches_def fieldMatches_def)
  from prim fields both one own other show ?thesis by simp
qed

section \<open>The reason of a denial\<close>

lemma case_last:
  "(case xs of [] \<Rightarrow> n | y # ys \<Rightarrow> f (last (y # ys))) = (if xs = [] then n else f (last xs))"
  by (cases xs) simp_all

lemma filter_denies:
  assumes "\<forall>r \<in> set as. \<not> rule_inverted r" "\<forall>d \<in> set ds. rule_inverted d"
  shows "filter (\<lambda>r. rule_inverted r \<and> P r) (as @ ds) = filter P ds"
proof -
  from assms(1) have "filter (\<lambda>r. rule_inverted r \<and> P r) as = []"
    by (auto simp: filter_empty_conv)
  moreover from assms(2) have "filter (\<lambda>r. rule_inverted r \<and> P r) ds = filter P ds"
    by (auto intro: filter_cong)
  ultimately show ?thesis by simp
qed

lemma reasonFor_split:
  assumes "\<forall>r \<in> set as. \<not> rule_inverted r" "\<forall>d \<in> set ds. rule_inverted d"
  shows "reasonFor matcher (as @ ds) a s =
     (case filter (\<lambda>r. ruleMatches matcher r a s) ds of
        [] \<Rightarrow> None
      | d # ds' \<Rightarrow> rule_reason (last (d # ds')))"
  unfolding reasonFor_def filter_denies[OF assms] ..

lemma reasonFor_relevant:
  assumes as: "\<forall>r \<in> set as. \<not> rule_inverted r" and ds: "\<forall>d \<in> set ds. rule_inverted d"
  shows "reasonFor matcher (as @ ds) a s =
     (case relevantRuleFor matcher (as @ ds) a s of
        None \<Rightarrow> None
      | Some r \<Rightarrow> if rule_inverted r then rule_reason r else None)"
proof (cases "filter (\<lambda>r. ruleMatches matcher r a s) ds = []")
  case True
  let ?M = "\<lambda>r. ruleMatches matcher r a s"
  show ?thesis
  proof (cases "filter ?M as = []")
    case e: True
    with True show ?thesis
      by (simp add: reasonFor_split[OF as ds] relevantRuleFor_last case_last del: last.simps)
  next
    case False
    from last_filter_in[OF False] as have "\<not> rule_inverted (last (filter ?M as))"
      by blast
    with True False show ?thesis
      by (simp add: reasonFor_split[OF as ds] relevantRuleFor_last case_last del: last.simps)
  qed
next
  case False
  let ?M = "\<lambda>r. ruleMatches matcher r a s"
  from last_filter_in[OF False] ds have inv: "rule_inverted (last (filter ?M ds))"
    by blast
  from False have l: "last (filter ?M as @ filter ?M ds) = last (filter ?M ds)"
    by simp
  from False inv l show ?thesis
    by (simp add: reasonFor_split[OF as ds] relevantRuleFor_last case_last del: last.simps)
qed

lemma compiled_allows_then_denies:
  assumes "createAbility render (Some u) = Inr rules"
  shows "\<exists>as ds. rules = as @ ds \<and> (\<forall>r \<in> set as. \<not> rule_inverted r)
      \<and> list_all2 (denyRuleOf render u) (revokes u) ds"
proof -
  from createAbility_order[OF assms] obtain rs gs ds where
    o: "rules = rs @ gs @ ds" "list_all2 (allowRuleOf render u) (rolePermissions u) rs"
      "list_all2 (allowRuleOf render u) (map permission (grants u)) gs"
      "list_all2 (denyRuleOf render u) (revokes u) ds"
    by blast
  from allow_rules_not_inverted[OF o(2)] allow_rules_not_inverted[OF o(3)]
  have "\<forall>r \<in> set (rs @ gs). \<not> rule_inverted r" by auto
  with o(1,4) show ?thesis
    by (intro exI[of _ "rs @ gs"] exI[of _ ds]) simp
qed

lemma reasonFor_compiled:
  assumes "createAbility render (Some u) = Inr rules"
  shows "reasonFor matcher rules a s =
     (case relevantRuleFor matcher rules a s of
        None \<Rightarrow> None
      | Some r \<Rightarrow> if rule_inverted r then rule_reason r else None)"
proof -
  from compiled_allows_then_denies[OF assms] obtain as ds where
    o: "rules = as @ ds" "\<forall>r \<in> set as. \<not> rule_inverted r"
      "list_all2 (denyRuleOf render u) (revokes u) ds"
    by blast
  from reasonFor_relevant[OF o(2) deny_rules_inverted[OF o(3)]] o(1)
  show ?thesis by simp
qed

lemma later_revoke_no_match:
  assumes "list_all2 (denyRuleOf render u) dps ds"
    and "\<forall>dp' \<in> set dps. \<not> ((action (permission dp') = a \<or> action (permission dp') = Manage)
          \<and> (subject (permission dp') = detectSubjectType s \<or> subject (permission dp') = ''all''
                \<or> subject (permission dp') = []))"
  shows "filter (\<lambda>r. ruleMatches matcher r a s) ds = []"
  using assms
  by (induction rule: list_all2_induct) (auto simp: denyRuleOf_def ruleMatches_def appliesTo_def)

lemma revoke_reason:
  assumes c: "createAbility render (Some u) = Inr rules"
    and dps: "directPermissions u = before @ dp # after"
    and dp: "inverted dp" "action (permission dp) = a"
      "subject (permission dp) = detectSubjectType s" "conditions (permission dp) = JNull"
    and later: "\<forall>dp' \<in> set after. inverted dp' \<longrightarrow>
        \<not> ((action (permission dp') = a \<or> action (permission dp') = Manage)
          \<and> (subject (permission dp') = detectSubjectType s \<or> subject (permission dp') = ''all''
                \<or> subject (permission dp') = []))"
  shows "reasonFor matcher rules a s = Some (case reason dp of None \<Rightarrow> [] | Some why \<Rightarrow> why)"
proof -
  let ?M = "\<lambda>r. ruleMatches matcher r a s"
  from compiled_allows_then_denies[OF c] obtain as ds where
    o: "rules = as @ ds" "\<forall>r \<in> set as. \<not> rule_inverted r"
      "list_all2 (denyRuleOf render u) (revokes u) ds"
    by blast
  from dps dp(1) have r: "revokes u = filter inverted before @ dp # filter inverted after"
    by (simp add: revokes_def)
  from o(3)[unfolded r] obtain ds1 d ds2 where
    s: "ds = ds1 @ d # ds2" "denyRuleOf render u dp d"
      "list_all2 (denyRuleOf render u) (filter inverted after) ds2"
    by (auto simp: list_all2_append1 list_all2_Cons1)
  from later have "\<forall>dp' \<in> set (filter inverted after).
      \<not> ((action (permission dp') = a \<or> action (permission dp') = Manage)
        \<and> (subject (permission dp') = detectSubjectType s \<or> subject (permission dp') = ''all''
              \<or> subject (permission dp') = []))"
    by simp
  from later_revoke_no_match[OF s(3) this] have none: "filter ?M ds2 = []" .
  have md: "?M d"
    by (rule unconditional_deny_matches[OF s(2) dp(2,3,4)])
  from none md have "filter ?M ds = filter ?M ds1 @ [d]"
    by (simp add: s(1))
  then have "(case filter ?M ds of [] \<Rightarrow> None | x # xs \<Rightarrow> rule_reason (last (x # xs))) = rule_reason d"
    by (simp add: case_last del: last.simps)
  with reasonFor_split[OF o(2) deny_rules_inverted[OF o(3)], of matcher a s] o(1) s(2)
  show ?thesis
    by (simp add: denyRuleOf_def)
qed

text \<open>
  C8. \<open>reasonFor\<close> gives the reason of the last Deny rule that matches the query, if
  there is one. On a compiled ability the Deny rules come last, so this is the reason of
  the rule that decides the query whenever that rule is a Deny rule. When the user holds
  a revoke without conditions for the action and the subject's type, and no later revoke
  applies to them (a revoke stored with the empty subject applies to every type),
  \<open>can\<close> is false and \<open>reasonFor\<close> is that revoke's reason (the empty string if it is
  stored as null): with a role that grants \<^verbatim>\<open>delete Post\<close> and a revoke of it for the
  reason \<^verbatim>\<open>sanctioned\<close>, the answer for any post is false and the reason is
  \<^verbatim>\<open>sanctioned\<close>.
\<close>

theorem reasonFor_last_matching_deny:
  assumes "createAbility render (Some u) = Inr rules"
  shows "reasonFor matcher rules a s =
      (case filter (\<lambda>r. rule_inverted r \<and> ruleMatches matcher r a s) rules of
         [] \<Rightarrow> None
       | d # ds \<Rightarrow> rule_reason (last (d # ds)))
    \<and> reasonFor matcher rules a s =
      (case relevantRuleFor matcher rules a s of
         None \<Rightarrow> None
       | Some r \<Rightarrow> if rule_inverted r then rule_reason r else None)
    \<and> (directPermissions u = before @ dp # after \<and> inverted dp \<and> action (permission dp) = a
         \<and> subject (permission dp) = detectSubjectType s \<and> conditions (permission dp) = JNull
         \<and> (\<forall>dp' \<in> set after. inverted dp' \<longrightarrow>
               \<not> ((action (permission dp') = a \<or> action (permission dp') = Manage)
                 \<and> (subject (permission dp') = detectSubjectType s
                      \<or> subject (permission dp') = ''all''
                      \<or> subject (permission dp') = [])))
        \<longrightarrow> \<not> can matcher rules a s
            \<and> reasonFor matcher rules a s = Some (case reason dp of None \<Rightarrow> [] | Some why \<Rightarrow> why))"
proof (intro conjI impI)
  show "reasonFor matcher rules a s =
      (case filter (\<lambda>r. rule_inverted r \<and> ruleMatches matcher r a s) rules of
         [] \<Rightarrow> None
       | d # ds \<Rightarrow> rule_reason (last (d # ds)))"
    by (simp add: reasonFor_def)
next
  show "reasonFor matcher rules a s =
      (case relevantRuleFor matcher rules a s of
         None \<Rightarrow> None
       | Some r \<Rightarrow> if rule_inverted r then rule_reason r else None)"
    by (rule reasonFor_compiled[OF assms])
next
  assume h: "directPermissions u = before @ dp # after \<and> inverted dp \<and> action (permission dp) = a
         \<and> subject (permission dp) = detectSubjectType s \<and> conditions (permission dp) = JNull
         \<and> (\<forall>dp' \<in> set after. inverted dp' \<longrightarrow>
               \<not> ((action (permission dp') = a \<or> action (permission dp') = Manage)
                 \<and> (subject (permission dp') = detectSubjectType s
                      \<or> subject (permission dp') = ''all''
                      \<or> subject (permission dp') = [])))"
  then have "dp \<in> set (directPermissions u)" by simp
  with h show "\<not> can matcher rules a s"
    using revoke_wins[OF assms, of dp a s matcher] by blast
  from h show "reasonFor matcher rules a s = Some (case reason dp of None \<Rightarrow> [] | Some why \<Rightarrow> why)"
    using revoke_reason[OF assms, of before dp after a s matcher] by blast
qed

theorem reasonFor_last_matching_deny_witness:
  "createAbility Mustache_render (Some sanctioned) = Inr sanctionedRules
   \<and> directPermissions sanctioned =
       [] @ \<lparr>permission = deletePost, inverted = True, reason = Some ''sanctioned'',
              expiresAt = None\<rparr> # []
   \<and> action deletePost = Delete \<and> subject deletePost = detectSubjectType (post 5)
   \<and> conditions deletePost = JNull
   \<and> \<not> can conditionMatches sanctionedRules Delete (post 5)
   \<and> reasonFor conditionMatches sanctionedRules Delete (post 5) = Some ''sanctioned''"
proof -
  let ?dp = "\<lparr>permission = deletePost, inverted = True, reason = Some ''sanctioned'',
      expiresAt = None\<rparr>"
  have h: "directPermissions sanctioned = [] @ ?dp # []"
    "action deletePost = Delete" "subject deletePost = detectSubjectType (post 5)"
    "conditions deletePost = JNull"
    by (simp_all add: sanctioned_def deletePost_def post_def)
  from reasonFor_last_matching_deny[OF sanctioned_compiled, of conditionMatches Delete "post 5"
      "[]" ?dp "[]", THEN conjunct2, THEN conjunct2] h
  have "\<not> can conditionMatches sanctionedRules Delete (post 5)
      \<and> reasonFor conditionMatches sanctionedRules Delete (post 5) = Some ''sanctioned''"
    by simp
  with sanctioned_compiled h show ?thesis by simp
qed

end
